theory Spec2Isabelle
  imports Main "HOL-Library.Word"
begin

section \<open>Strings\<close>

text \<open>
  A JavaScript string is a sequence of 16-bit code units. Addresses and tokens, which
  come from requests and from \<^verbatim>\<open>uuidv4()\<close>, are such sequences; the fixed texts of
  the handlers (response messages, error messages, configuration values) are ASCII and
  are kept as \<open>string\<close>. \<open>utf16\<close> turns an ASCII text into its code units.
\<close>

type_synonym code_unit = "16 word"
type_synonym js_string = "code_unit list"

definition utf16 :: "string \<Rightarrow> js_string" where
  "utf16 s = map (\<lambda>c. of_nat (of_char c)) s"

text \<open>
  \<^verbatim>\<open>db.query(text, [email, token])\<close> hands each parameter to the \<^verbatim>\<open>pg\<close> client,
  which writes a string into the message for the server as UTF-8; the column is of a
  text type and comes back decoded from UTF-8. A surrogate code unit that is not part
  of a pair (a high surrogate followed by a low one) has no UTF-8 form and is written
  as U+FFFD. So the string the store receives, keeps, compares and returns for a
  parameter \<open>s\<close> is \<open>toWellFormed s\<close>, the string ECMAScript calls by that name.
\<close>

definition is_high_surrogate :: "code_unit \<Rightarrow> bool" where
  "is_high_surrogate c \<longleftrightarrow> 0xD800 \<le> c \<and> c \<le> 0xDBFF"

definition is_low_surrogate :: "code_unit \<Rightarrow> bool" where
  "is_low_surrogate c \<longleftrightarrow> 0xDC00 \<le> c \<and> c \<le> 0xDFFF"

fun toWellFormed :: "js_string \<Rightarrow> js_string" where
  "toWellFormed [] = []"
| "toWellFormed [c] = [if is_high_surrogate c \<or> is_low_surrogate c then 0xFFFD else c]"
| "toWellFormed (c # d # cs) =
     (if is_high_surrogate c \<and> is_low_surrogate d then c # d # toWellFormed cs
      else if is_high_surrogate c \<or> is_low_surrogate c then 0xFFFD # toWellFormed (d # cs)
      else c # toWellFormed (d # cs))"

section \<open>The address pattern\<close>

text \<open>
  \<^verbatim>\<open>const emailRegex: RegExp = /^[^\s@]+@[^\s@]+\.[^\s@]+$/;\<close>

  The pattern has no flags, no group and no back-reference: \<^verbatim>\<open>emailRegex.test(s)\<close>
  is true exactly when the whole of \<open>s\<close> (the pattern is anchored at both ends) belongs
  to the regular language of the pattern. Patterns are a datatype, and a pattern is
  matched by taking its derivative along the string.
\<close>

datatype pattern =
    Never
  | Empty
  | Cls "code_unit \<Rightarrow> bool"
  | Or pattern pattern
  | Then pattern pattern
  | Many pattern

definition Many1 :: "pattern \<Rightarrow> pattern" where
  \<comment> \<open>the quantifier \<^verbatim>\<open>+\<close>\<close>
  "Many1 p = Then p (Many p)"

fun nullable :: "pattern \<Rightarrow> bool" where
  "nullable Never = False"
| "nullable Empty = True"
| "nullable (Cls f) = False"
| "nullable (Or p q) = (nullable p \<or> nullable q)"
| "nullable (Then p q) = (nullable p \<and> nullable q)"
| "nullable (Many p) = True"

fun deriv :: "code_unit \<Rightarrow> pattern \<Rightarrow> pattern" where
  "deriv c Never = Never"
| "deriv c Empty = Never"
| "deriv c (Cls f) = (if f c then Empty else Never)"
| "deriv c (Or p q) = Or (deriv c p) (deriv c q)"
| "deriv c (Then p q) =
     (if nullable p then Or (Then (deriv c p) q) (deriv c q) else Then (deriv c p) q)"
| "deriv c (Many p) = Then (deriv c p) (Many p)"

fun matches :: "pattern \<Rightarrow> js_string \<Rightarrow> bool" where
  "matches p [] = nullable p"
| "matches p (c # cs) = matches (deriv c p) cs"

text \<open>
  The language of a pattern, for stating what the matcher decides: \<open>repeated A\<close> is
  the set of concatenations of finitely many members of \<open>A\<close>.
\<close>

inductive_set repeated :: "js_string set \<Rightarrow> js_string set" for A :: "js_string set" where
  none: "[] \<in> repeated A"
| more: "u \<in> A \<Longrightarrow> v \<in> repeated A \<Longrightarrow> u @ v \<in> repeated A"

fun denotes :: "pattern \<Rightarrow> js_string set" where
  "denotes Never = {}"
| "denotes Empty = {[]}"
| "denotes (Cls f) = {[c] | c. f c}"
| "denotes (Or p q) = denotes p \<union> denotes q"
| "denotes (Then p q) = {u @ v | u v. u \<in> denotes p \<and> v \<in> denotes q}"
| "denotes (Many p) = repeated (denotes p)"

definition is_space :: "code_unit \<Rightarrow> bool" where
  \<comment> \<open>the class \<^verbatim>\<open>\s\<close> of ECMAScript: white space and line terminators\<close>
  "is_space c \<longleftrightarrow>
     c = 0x0009 \<or> c = 0x000A \<or> c = 0x000B \<or> c = 0x000C \<or> c = 0x000D \<or> c = 0x0020 \<or>
     c = 0x00A0 \<or> c = 0x1680 \<or> (0x2000 \<le> c \<and> c \<le> 0x200A) \<or> c = 0x2028 \<or> c = 0x2029 \<or>
     c = 0x202F \<or> c = 0x205F \<or> c = 0x3000 \<or> c = 0xFEFF"

definition at_sign :: code_unit where
  "at_sign = 0x0040"

definition full_stop :: code_unit where
  "full_stop = 0x002E"

definition not_space_at :: "code_unit \<Rightarrow> bool" where
  \<comment> \<open>the class \<^verbatim>\<open>[^\s@]\<close>\<close>
  "not_space_at c \<longleftrightarrow> \<not> is_space c \<and> c \<noteq> at_sign"

definition emailRegex :: pattern where
  "emailRegex =
     Then (Many1 (Cls not_space_at))
       (Then (Cls (\<lambda>c. c = at_sign))
         (Then (Many1 (Cls not_space_at))
           (Then (Cls (\<lambda>c. c = full_stop))
             (Many1 (Cls not_space_at)))))"

definition emailRegex_test :: "js_string \<Rightarrow> bool" where
  "emailRegex_test s = matches emailRegex s"

section \<open>The subscriber store\<close>

text \<open>
  Modelled from the spec: the table \<^verbatim>\<open>subscribers\<close> and the type
  \<^verbatim>\<open>SubscriberStatus\<close> of \<^verbatim>\<open>$lib/types\<close> are not under src/; the columns are
  the ones the statements of the handlers name, the three status values are those of
  the spec's data model, and addresses are compared exactly. The table is the list of
  its rows; the strings of a row are the ones a query returns for it.
\<close>

datatype SubscriberStatus = pending | confirmed | unsubscribed

record subscriber =
  row_id :: nat
  email :: js_string
  status :: SubscriberStatus
  confirmation_token :: "js_string option"
  created_at :: nat
  updated_at :: nat

text \<open>
  \<^verbatim>\<open>INSERT INTO subscribers(email, status, confirmation_token, created_at, updated_at)
   VALUES($1, 'pending', $2, NOW(), NOW())
   ON CONFLICT (email) DO UPDATE SET
      confirmation_token = EXCLUDED.confirmation_token,
      status = CASE WHEN subscribers.status = 'unsubscribed' THEN 'pending'
                    ELSE subscribers.status END,
      updated_at = NOW()
   RETURNING id, status, email\<close>

  \<open>insert_statement\<close> is the statement as the store runs it, on the text values
  \<open>key\<close> and \<open>token\<close> it has received for \<^verbatim>\<open>$1\<close> and \<^verbatim>\<open>$2\<close>. The identifier
  of a created row is given by the store; it is the parameter \<open>new_id\<close>. The result
  is the list of returned rows and the table after the statement. The conflict target
  needs a unique index on \<^verbatim>\<open>email\<close>, so a table of the store has at most one row
  with the address; the definition says what the statement does to every row with the
  address and does not depend on that.

  \<open>upsertPendingSubscriber\<close> is the call \<^verbatim>\<open>db.query(..., [email, token])\<close> of the
  handler: the store receives the address as \<open>toWellFormed addr\<close>, and that is the
  string it compares with the rows, keeps in a created row and returns. The token is
  the value of \<^verbatim>\<open>uuidv4()\<close>, hexadecimal digits and hyphens, which the encoding
  leaves as they are.
\<close>

definition on_conflict :: "js_string \<Rightarrow> nat \<Rightarrow> subscriber \<Rightarrow> subscriber" where
  "on_conflict token now r =
     r\<lparr>confirmation_token := Some token,
       status := (if status r = unsubscribed then pending else status r),
       updated_at := now\<rparr>"

definition insert_statement ::
  "js_string \<Rightarrow> js_string \<Rightarrow> nat \<Rightarrow> nat \<Rightarrow> subscriber list
     \<Rightarrow> (nat \<times> SubscriberStatus \<times> js_string) list \<times> subscriber list" where
  "insert_statement key token new_id now rows =
     (let rows' =
        (if \<exists>r \<in> set rows. email r = key
         then map (\<lambda>r. if email r = key then on_conflict token now r else r) rows
         else rows @ [\<lparr>row_id = new_id, email = key, status = pending,
                        confirmation_token = Some token,
                        created_at = now, updated_at = now\<rparr>])
      in (map (\<lambda>r. (row_id r, status r, email r)) (filter (\<lambda>r. email r = key) rows'), rows'))"

definition upsertPendingSubscriber ::
  "js_string \<Rightarrow> js_string \<Rightarrow> nat \<Rightarrow> nat \<Rightarrow> subscriber list
     \<Rightarrow> (nat \<times> SubscriberStatus \<times> js_string) list \<times> subscriber list" where
  "upsertPendingSubscriber addr token new_id now rows =
     insert_statement (toWellFormed addr) token new_id now rows"

text \<open>
  The two earlier revisions of the subscribe handler (src/unnamed/part_000 and
  part_001) run the same statement without the two time columns:

  \<^verbatim>\<open>INSERT INTO subscribers(email, status, confirmation_token)
   VALUES($1, 'pending', $2)
   ON CONFLICT (email) DO UPDATE SET
      confirmation_token = EXCLUDED.confirmation_token,
      status = CASE WHEN subscribers.status = 'unsubscribed' THEN 'pending'
                    ELSE subscribers.status END
   RETURNING id, status, email\<close>

  Modelled from the spec: the defaults of the two time columns are not under src/;
  a created row gets the time of the write in both. The parameters reach the store as
  in the current revision.
\<close>

definition on_conflict_part_000 :: "js_string \<Rightarrow> subscriber \<Rightarrow> subscriber" where
  "on_conflict_part_000 token r =
     r\<lparr>confirmation_token := Some token,
       status := (if status r = unsubscribed then pending else status r)\<rparr>"

definition insert_statement_part_000 ::
  "js_string \<Rightarrow> js_string \<Rightarrow> nat \<Rightarrow> nat \<Rightarrow> subscriber list
     \<Rightarrow> (nat \<times> SubscriberStatus \<times> js_string) list \<times> subscriber list" where
  "insert_statement_part_000 key token new_id now rows =
     (let rows' =
        (if \<exists>r \<in> set rows. email r = key
         then map (\<lambda>r. if email r = key then on_conflict_part_000 token r else r) rows
         else rows @ [\<lparr>row_id = new_id, email = key, status = pending,
                        confirmation_token = Some token,
                        created_at = now, updated_at = now\<rparr>])
      in (map (\<lambda>r. (row_id r, status r, email r)) (filter (\<lambda>r. email r = key) rows'), rows'))"

definition upsertPendingSubscriber_part_000 ::
  "js_string \<Rightarrow> js_string \<Rightarrow> nat \<Rightarrow> nat \<Rightarrow> subscriber list
     \<Rightarrow> (nat \<times> SubscriberStatus \<times> js_string) list \<times> subscriber list" where
  "upsertPendingSubscriber_part_000 addr token new_id now rows =
     insert_statement_part_000 (toWellFormed addr) token new_id now rows"

text \<open>
  \<^verbatim>\<open>UPDATE subscribers
   SET status = 'confirmed', confirmation_token = NULL
   WHERE confirmation_token = $1 AND status = 'pending'
   RETURNING id, email\<close>

  The parameter is the value of \<^verbatim>\<open>url.searchParams.get('token')\<close>, which the URL
  parser has decoded from UTF-8: it has no surrogate outside a pair, and the store
  receives it as it is.
\<close>

definition token_matches :: "js_string \<Rightarrow> subscriber \<Rightarrow> bool" where
  \<comment> \<open>the \<^verbatim>\<open>WHERE\<close> clause\<close>
  "token_matches token r \<longleftrightarrow> confirmation_token r = Some token \<and> status r = pending"

definition confirmByToken ::
  "js_string \<Rightarrow> subscriber list \<Rightarrow> (nat \<times> js_string) list \<times> subscriber list" where
  "confirmByToken token rows =
     (map (\<lambda>r. (row_id r, email r)) (filter (token_matches token) rows),
      map (\<lambda>r. if token_matches token r
                then r\<lparr>status := confirmed, confirmation_token := None\<rparr> else r) rows)"

section \<open>Responses, collaborators and the state of the system\<close>

text \<open>
  \<^verbatim>\<open>json({ message }, { status })\<close>: the response of either endpoint is a status
  code and a body with the single field \<^verbatim>\<open>message\<close>.
\<close>

record response =
  http_status :: nat
  message :: string

definition json :: "string \<Rightarrow> nat \<Rightarrow> response" where
  "json msg st = \<lparr>http_status = st, message = msg\<rparr>"

text \<open>
  A thrown \<^verbatim>\<open>Error\<close> is a value; a function that may throw returns \<open>exn + 'a\<close>.
  \<open>smtp_error\<close> is what \<^verbatim>\<open>transporter.sendMail\<close> rejects with: its
  \<^verbatim>\<open>code\<close> and its \<^verbatim>\<open>message\<close>.
\<close>

datatype exn = Error (error_message: string)

datatype smtp_error = SmtpError (err_code: string) (err_message: string)

text \<open>
  A message handed to the transport: the recipient, the subject, and the confirmation
  link that its HTML and text bodies are built around.
\<close>

record mail =
  mail_to :: js_string
  mail_subject :: string
  mail_link :: js_string

text \<open>
  The state the handlers work on: the table; the three configuration values that
  \<^verbatim>\<open>sendConfirmationEmail\<close> reads from \<^verbatim>\<open>import.meta.env\<close> (\<open>None\<close> when
  undefined); the messages the transport has accepted. \<open>notifier_calls\<close> is
  instrumentation, not program state: it lists the arguments \<open>(to, token)\<close> of every
  call of \<^verbatim>\<open>sendConfirmationEmail\<close>, whether or not the call returned. Console
  output is not modelled.
\<close>

record world =
  subscribers :: "subscriber list"
  smtp_username :: "string option"
  smtp_password :: "string option"
  base_url :: "string option"
  outbox :: "mail list"
  notifier_calls :: "(js_string \<times> js_string) list"

definition falsy :: "'a list option \<Rightarrow> bool" where
  \<comment> \<open>\<^verbatim>\<open>!v\<close> for a value that is a string, \<^verbatim>\<open>undefined\<close> or \<^verbatim>\<open>null\<close>\<close>
  "falsy v \<longleftrightarrow> (case v of None \<Rightarrow> True | Some s \<Rightarrow> s = [])"

definition userFriendlyMessage :: "smtp_error \<Rightarrow> string" where
  "userFriendlyMessage err =
     (if err_code err = ''EAUTH''
      then ''Email authentication failed - please contact support''
      else if err_code err = ''ECONNECTION''
      then ''Email service connection failed - please try again''
      else if err_code err = ''ETIMEDOUT''
      then ''Email service timeout - please try again''
      else ''Failed to send confirmation email'')"

definition confirmationLink :: "string \<Rightarrow> js_string \<Rightarrow> js_string" where
  "confirmationLink base token = utf16 base @ utf16 ''/confirm-subscription?token='' @ token"

text \<open>
  \<^verbatim>\<open>sendConfirmationEmail({ to, token })\<close> of src/src/lib/server/email.ts. The
  parameter \<open>smtp\<close> is the outcome of the one call of \<^verbatim>\<open>transporter.sendMail\<close>:
  \<open>None\<close> when it resolves, \<open>Some err\<close> when it rejects.
\<close>

definition sendConfirmationEmail ::
  "smtp_error option \<Rightarrow> js_string \<Rightarrow> js_string \<Rightarrow> world \<Rightarrow> (exn + unit) \<times> world" where
  "sendConfirmationEmail smtp to token w0 =
     (let w = w0\<lparr>notifier_calls := notifier_calls w0 @ [(to, token)]\<rparr> in
      if falsy (smtp_username w) \<or> falsy (smtp_password w)
      then (Inl (Error ''Email service not configured - missing SMTP credentials''), w)
      else
        (case base_url w of
           None \<Rightarrow> (Inl (Error ''Email service not configured - missing base URL''), w)
         | Some base \<Rightarrow>
             if base = []
             then (Inl (Error ''Email service not configured - missing base URL''), w)
             else
               (case smtp of
                  None \<Rightarrow>
                    (Inr (),
                     w\<lparr>outbox := outbox w @
                        [\<lparr>mail_to = to,
                          mail_subject = ''Confirm Your Subscription to Our Mailing List'',
                          mail_link = confirmationLink base token\<rparr>]\<rparr>)
                | Some err \<Rightarrow>
                    (Inl (Error (userFriendlyMessage err @ ''. Original error: '' @ err_message err)),
                     w))))"

section \<open>The subscribe handler\<close>

text \<open>
  Modelled from the spec: \<^verbatim>\<open>SubscriptionRequestBody\<close> of \<^verbatim>\<open>$lib/types\<close> is not
  under src/; a body that parses is an object whose \<^verbatim>\<open>email\<close>, when present, is a
  string. \<open>Unparseable\<close> is a body on which \<^verbatim>\<open>request.json()\<close> rejects.
\<close>

datatype request_body = Unparseable | Parsed "js_string option"

text \<open>
  What the surroundings decide during one call of the handler: the value
  \<^verbatim>\<open>uuidv4()\<close> returns, the time \<^verbatim>\<open>NOW()\<close>, the identifier the store gives to a
  created row, whether \<^verbatim>\<open>db.query('SELECT 1')\<close> rejects, whether the
  \<^verbatim>\<open>db.query\<close> of the insert statement rejects, and the outcome of
  \<^verbatim>\<open>transporter.sendMail\<close>. A statement that rejects leaves the table as it was.
\<close>

record subscribe_io =
  uuid :: js_string
  now :: nat
  new_id :: nat
  select1_throws :: bool
  upsert_throws :: bool
  sendMail_throws :: "smtp_error option"

text \<open>
  \<^verbatim>\<open>POST\<close> of src/src/routes/api/subscribe/+server.ts. With a body of the declared
  type nothing throws outside the inner handlers, so the outermost
  \<^verbatim>\<open>catch (apiError)\<close> has no branch here.
\<close>

definition POST :: "world \<Rightarrow> subscribe_io \<Rightarrow> request_body \<Rightarrow> response \<times> world" where
  "POST w io requestBody =
     (case requestBody of
        Unparseable \<Rightarrow> (json ''Invalid request format.'' 400, w)
      | Parsed field \<Rightarrow>
          (case field of
             None \<Rightarrow> (json ''Email address is required.'' 400, w)
           | Some addr \<Rightarrow>
               if addr = [] then (json ''Email address is required.'' 400, w)
               else if \<not> emailRegex_test addr
               then (json ''Please enter a valid email address format.'' 400, w)
               else if select1_throws io
               then (json ''Database service unavailable. Please try again later.'' 503, w)
               else if upsert_throws io
               then (json ''Database error occurred. Please try again later.'' 500, w)
               else
                 (case upsertPendingSubscriber addr (uuid io) (new_id io) (now io) (subscribers w) of
                    (result, rows') \<Rightarrow>
                      (let w' = w\<lparr>subscribers := rows'\<rparr> in
                       case result of
                         [] \<Rightarrow>
                           (json ''Failed to process subscription request. Please try again.'' 500, w')
                       | (subscriberId, subscriberStatus, subscriberEmail) # _ \<Rightarrow>
                           if subscriberStatus = confirmed
                           then (json ''You are already subscribed and confirmed!'' 200, w')
                           else
                             (case sendConfirmationEmail (sendMail_throws io) subscriberEmail (uuid io) w' of
                                (Inr _, w'') \<Rightarrow>
                                  (json ''Please check your email to confirm your subscription!'' 200, w'')
                              | (Inl emailSendError, w'') \<Rightarrow>
                                  (json ''Failed to send confirmation email. Please try again or contact support.'' 500,
                                   w''))))))"

text \<open>
  \<^verbatim>\<open>POST\<close> of src/unnamed/part_000, an earlier revision of the same handler: no
  connection test, a rejected \<^verbatim>\<open>request.json()\<close> reaches the outermost handler, and one
  \<^verbatim>\<open>catch (dbOrEmailError)\<close> encloses both the statement and the notifier call.
  The notifier is \<open>sendConfirmationEmail\<close> above; the two earlier revisions of it in
  src/src/lib/server/email.ts also either return or throw an \<^verbatim>\<open>Error\<close>, which is
  all that the handlers look at.
\<close>

definition POST_part_000 :: "world \<Rightarrow> subscribe_io \<Rightarrow> request_body \<Rightarrow> response \<times> world" where
  "POST_part_000 w io requestBody =
     (case requestBody of
        Unparseable \<Rightarrow> (json ''Internal server error occurred.'' 500, w)
      | Parsed field \<Rightarrow>
          (case field of
             None \<Rightarrow> (json ''Email address is required.'' 400, w)
           | Some addr \<Rightarrow>
               if addr = [] then (json ''Email address is required.'' 400, w)
               else if \<not> emailRegex_test addr
               then (json ''Please enter a valid email address format.'' 400, w)
               else if upsert_throws io
               then (json ''Failed to subscribe. Please try again later.'' 500, w)
               else
                 (case upsertPendingSubscriber_part_000 addr (uuid io) (new_id io) (now io) (subscribers w) of
                    (result, rows') \<Rightarrow>
                      (let w' = w\<lparr>subscribers := rows'\<rparr> in
                       case result of
                         [] \<Rightarrow>
                           (json ''Failed to process subscription request. Please try again.'' 500, w')
                       | (subscriberId, subscriberStatus, subscriberEmail) # _ \<Rightarrow>
                           if subscriberStatus = confirmed
                           then (json ''You are already subscribed and confirmed!'' 200, w')
                           else
                             (case sendConfirmationEmail (sendMail_throws io) subscriberEmail (uuid io) w' of
                                (Inr _, w'') \<Rightarrow>
                                  (json ''Please check your email to confirm your subscription!'' 200, w'')
                              | (Inl dbOrEmailError, w'') \<Rightarrow>
                                  (json ''Failed to subscribe. Please try again later.'' 500, w''))))))"

text \<open>
  \<^verbatim>\<open>POST\<close> of src/unnamed/part_001, another earlier revision: as part_000, but the
  notifier call has its own \<^verbatim>\<open>catch (emailSendError)\<close>, which answers 200.
\<close>

definition POST_part_001 :: "world \<Rightarrow> subscribe_io \<Rightarrow> request_body \<Rightarrow> response \<times> world" where
  "POST_part_001 w io requestBody =
     (case requestBody of
        Unparseable \<Rightarrow> (json ''Internal server error occurred.'' 500, w)
      | Parsed field \<Rightarrow>
          (case field of
             None \<Rightarrow> (json ''Email address is required.'' 400, w)
           | Some addr \<Rightarrow>
               if addr = [] then (json ''Email address is required.'' 400, w)
               else if \<not> emailRegex_test addr
               then (json ''Please enter a valid email address format.'' 400, w)
               else if upsert_throws io
               then (json ''Database error occurred. Please try again later.'' 500, w)
               else
                 (case upsertPendingSubscriber_part_000 addr (uuid io) (new_id io) (now io) (subscribers w) of
                    (result, rows') \<Rightarrow>
                      (let w' = w\<lparr>subscribers := rows'\<rparr> in
                       case result of
                         [] \<Rightarrow>
                           (json ''Failed to process subscription request. Please try again.'' 500, w')
                       | (subscriberId, subscriberStatus, subscriberEmail) # _ \<Rightarrow>
                           if subscriberStatus = confirmed
                           then (json ''You are already subscribed and confirmed!'' 200, w')
                           else
                             (case sendConfirmationEmail (sendMail_throws io) subscriberEmail (uuid io) w' of
                                (Inr _, w'') \<Rightarrow>
                                  (json ''Please check your email to confirm your subscription!'' 200, w'')
                              | (Inl emailSendError, w'') \<Rightarrow>
                                  (json (''Subscription saved! Please check your email or contact support if you don''
                                         @ [CHR 0x27] @ ''t receive confirmation.'') 200,
                                   w''))))))"

section \<open>The confirm handler\<close>

text \<open>
  \<^verbatim>\<open>GET\<close> of src/routes/confirm-subscription/+server.ts (the last part of
  src/src/lib/server/email.ts). \<open>param\<close> is \<^verbatim>\<open>url.searchParams.get('token')\<close>,
  \<open>None\<close> for \<^verbatim>\<open>null\<close>; \<open>update_throws\<close> says whether the \<^verbatim>\<open>db.query\<close> of the
  update statement rejects.
\<close>

definition GET :: "world \<Rightarrow> bool \<Rightarrow> js_string option \<Rightarrow> response \<times> world" where
  "GET w update_throws param =
     (case param of
        None \<Rightarrow> (json ''Confirmation token is missing from the link.'' 400, w)
      | Some token \<Rightarrow>
          if token = [] then (json ''Confirmation token is missing from the link.'' 400, w)
          else if update_throws
          then (json ''An error occurred during confirmation. Please try again.'' 500, w)
          else
            (case confirmByToken token (subscribers w) of
               (result, rows') \<Rightarrow>
                 if length result > 0
                 then (json ''Your subscription has been successfully confirmed!'' 200,
                       w\<lparr>subscribers := rows'\<rparr>)
                 else (json ''Invalid or expired confirmation link, or subscription already confirmed.'' 404,
                       w\<lparr>subscribers := rows'\<rparr>)))"

text \<open>The state right after the insert statement of a subscribe call has run.\<close>

definition stored :: "world \<Rightarrow> subscribe_io \<Rightarrow> js_string \<Rightarrow> world" where
  "stored w io addr =
     w\<lparr>subscribers := snd (upsertPendingSubscriber addr (uuid io) (new_id io) (now io) (subscribers w))\<rparr>"

section \<open>Runs of the system\<close>

text \<open>
  The states the two endpoints can bring about, starting from an empty table: each
  step is one call of \<open>POST\<close> or of \<open>GET\<close>, with any request and any behaviour of the
  surroundings.
\<close>

inductive reachable :: "world \<Rightarrow> bool" where
  initial: "subscribers w = [] \<Longrightarrow> reachable w"
| subscribe: "reachable w \<Longrightarrow> reachable (snd (POST w io requestBody))"
| confirm: "reachable w \<Longrightarrow> reachable (snd (GET w update_throws param))"

section \<open>Sample values\<close>

definition sample_world :: world where
  "sample_world =
     \<lparr>subscribers = [], smtp_username = Some ''news@example.org'',
      smtp_password = Some ''secret'', base_url = Some ''https://example.org'',
      outbox = [], notifier_calls = []\<rparr>"

definition sample_address :: js_string where
  "sample_address = utf16 ''a@example.com''"

definition sample_token :: js_string where
  "sample_token = utf16 ''9b2e4c1a-7d3f-4a5b-8c6d-0e1f2a3b4c5d''"

definition other_token :: js_string where
  "other_token = utf16 ''1c8f0d2e-6a4b-4e7c-9f3a-5b6c7d8e9f0a''"

definition sample_io :: subscribe_io where
  "sample_io =
     \<lparr>uuid = sample_token, now = 1000, new_id = 1, select1_throws = False,
      upsert_throws = False, sendMail_throws = None\<rparr>"

definition later_io :: subscribe_io where
  "later_io =
     \<lparr>uuid = other_token, now = 2000, new_id = 2, select1_throws = False,
      upsert_throws = False, sendMail_throws = None\<rparr>"

definition refused :: smtp_error where
  "refused = SmtpError ''ECONNECTION'' ''connect ECONNREFUSED''"

definition mail_down_io :: subscribe_io where
  "mail_down_io = sample_io\<lparr>sendMail_throws := Some refused\<rparr>"

definition store_down_io :: subscribe_io where
  "store_down_io = sample_io\<lparr>upsert_throws := True\<rparr>"

definition sample_row :: subscriber where
  "sample_row =
     \<lparr>row_id = 1, email = sample_address, status = pending,
      confirmation_token = Some sample_token, created_at = 1000, updated_at = 1000\<rparr>"

definition other_row :: subscriber where
  "other_row =
     \<lparr>row_id = 7, email = utf16 ''b@example.com'', status = pending,
      confirmation_token = Some other_token, created_at = 900, updated_at = 900\<rparr>"

definition pending_world :: world where
  "pending_world = sample_world\<lparr>subscribers := [other_row, sample_row]\<rparr>"

definition confirmed_world :: world where
  "confirmed_world =
     sample_world\<lparr>subscribers := [sample_row\<lparr>status := confirmed, confirmation_token := None\<rparr>]\<rparr>"

definition lapsed_world :: world where
  "lapsed_world =
     sample_world\<lparr>subscribers := [sample_row\<lparr>status := unsubscribed, confirmation_token := None\<rparr>]\<rparr>"

definition subscribed_world :: world where
  "subscribed_world = snd (POST sample_world sample_io (Parsed (Some sample_address)))"

definition confirmed_once_world :: world where
  "confirmed_once_world = snd (GET subscribed_world False (Some sample_token))"

definition resubscribed_world :: world where
  "resubscribed_world = snd (POST confirmed_once_world later_io (Parsed (Some sample_address)))"

definition lone_surrogate_address :: js_string where
  \<comment> \<open>a high surrogate with no low surrogate after it, then \<^verbatim>\<open>@b.c\<close>\<close>
  "lone_surrogate_address = 0xDBFF # utf16 ''@b.c''"

definition replaced_address :: js_string where
  "replaced_address = 0xFFFD # utf16 ''@b.c''"

definition replaced_world :: world where
  "replaced_world =
     sample_world\<lparr>subscribers := [sample_row\<lparr>email := replaced_address\<rparr>]\<rparr>"

definition unknown_token :: js_string where
  "unknown_token = utf16 ''00000000-0000-4000-8000-000000000000''"

section \<open>Facts about the pattern\<close>

text \<open>
  The matcher decides membership in the language of the pattern, and the language of
  \<open>emailRegex\<close> is: a non-empty run without white space or \<^verbatim>\<open>@\<close>, then
  \<^verbatim>\<open>@\<close>, a second such run, a full stop, and a third such run.
\<close>

lemma nullable_denotes: "nullable p \<longleftrightarrow> [] \<in> denotes p"
  by (induction p) (auto intro: repeated.none)

lemma repeated_step:
  "c # w \<in> repeated A \<longleftrightarrow> (\<exists>u v. w = u @ v \<and> c # u \<in> A \<and> v \<in> repeated A)"
proof
  assume "c # w \<in> repeated A"
  then show "\<exists>u v. w = u @ v \<and> c # u \<in> A \<and> v \<in> repeated A"
  proof (induction "c # w" arbitrary: w rule: repeated.induct)
    case (more u v)
    show ?case
    proof (cases u)
      case Nil
      then show ?thesis using more by simp
    next
      case (Cons a u')
      then show ?thesis using more by auto
    qed
  qed
next
  assume "\<exists>u v. w = u @ v \<and> c # u \<in> A \<and> v \<in> repeated A"
  then obtain u v where "w = u @ v" "c # u \<in> A" "v \<in> repeated A" by blast
  then show "c # w \<in> repeated A" using repeated.more [of "c # u" A v] by simp
qed

lemma denotes_deriv: "w \<in> denotes (deriv c p) \<longleftrightarrow> c # w \<in> denotes p"
proof (induction p arbitrary: w)
  case (Then p q)
  show ?case
    by (auto simp: Then nullable_denotes Cons_eq_append_conv)
next
  case (Many p)
  show ?case by (auto simp: Many repeated_step)
qed auto

lemma matches_denotes: "matches p s \<longleftrightarrow> s \<in> denotes p"
  by (induction s arbitrary: p) (simp_all add: nullable_denotes denotes_deriv)

lemma repeated_class: "repeated {[c] | c. f c} = {u. \<forall>x \<in> set u. f x}"
proof (intro set_eqI iffI)
  fix u assume "u \<in> repeated {[c] | c. f c}"
  then show "u \<in> {u. \<forall>x \<in> set u. f x}"
    by (induction rule: repeated.induct) auto
next
  fix u assume "u \<in> {u. \<forall>x \<in> set u. f x}"
  then show "u \<in> repeated {[c] | c. f c}"
  proof (induction u)
    case Nil
    show ?case by (rule repeated.none)
  next
    case (Cons a u)
    then have "[a] \<in> {[c] | c. f c}" "u \<in> repeated {[c] | c. f c}" by auto
    then have "[a] @ u \<in> repeated {[c] | c. f c}" by (rule repeated.more)
    then show ?case by simp
  qed
qed

lemma denotes_Many1_Cls: "denotes (Many1 (Cls f)) = {u. u \<noteq> [] \<and> (\<forall>x \<in> set u. f x)}"
proof (intro set_eqI iffI)
  fix w assume "w \<in> denotes (Many1 (Cls f))"
  then show "w \<in> {u. u \<noteq> [] \<and> (\<forall>x \<in> set u. f x)}"
    by (auto simp: Many1_def repeated_class)
next
  fix w assume "w \<in> {u. u \<noteq> [] \<and> (\<forall>x \<in> set u. f x)}"
  then obtain c v where w: "w = [c] @ v" "f c" "\<forall>x \<in> set v. f x" by (cases w) auto
  then have "[c] \<in> denotes (Cls f)" "v \<in> denotes (Many (Cls f))"
    by (simp_all add: repeated_class)
  then show "w \<in> denotes (Many1 (Cls f))"
    unfolding Many1_def w(1) denotes.simps(5) by blast
qed

lemma emailRegex_test_iff:
  "emailRegex_test s \<longleftrightarrow>
     (\<exists>a b c. s = a @ [at_sign] @ b @ [full_stop] @ c \<and> a \<noteq> [] \<and> b \<noteq> [] \<and> c \<noteq> []
        \<and> (\<forall>x \<in> set a \<union> set b \<union> set c. not_space_at x))"
proof -
  have one: "denotes (Cls (\<lambda>c. c = k)) = {[k]}" for k
    by auto
  have "s \<in> denotes emailRegex \<longleftrightarrow>
     (\<exists>a b c. s = a @ [at_sign] @ b @ [full_stop] @ c \<and> a \<noteq> [] \<and> b \<noteq> [] \<and> c \<noteq> []
        \<and> (\<forall>x \<in> set a \<union> set b \<union> set c. not_space_at x))"
    unfolding emailRegex_def denotes.simps(5) denotes_Many1_Cls one
    by (simp add: ball_Un) blast
  then show ?thesis by (simp add: emailRegex_test_def matches_denotes)
qed

lemmas pattern_defs = emailRegex_test_def emailRegex_def Many1_def not_space_at_def is_space_def
  at_sign_def full_stop_def

lemma malformed_examples:
  "\<not> emailRegex_test (utf16 ''foo'')" "\<not> emailRegex_test (utf16 ''foo@'')"
  "\<not> emailRegex_test (utf16 ''@bar.com'')"
  by (simp_all add: pattern_defs utf16_def)

section \<open>Facts about the collaborators and the statements\<close>

subsection \<open>Lists\<close>

lemma find_filter_Cons: "find P xs = Some x \<Longrightarrow> \<exists>ys. filter P xs = x # ys"
  by (induction xs) (auto split: if_splits)

lemma find_Some_set: "find P xs = Some x \<Longrightarrow> x \<in> set xs \<and> P x"
  by (induction xs) (auto split: if_splits)


subsection \<open>The notifier\<close>

lemma falsy_simps [simp]: "falsy None" "falsy (Some s) \<longleftrightarrow> s = []"
  by (simp_all add: falsy_def)

lemma notifier_calls_send:
  "notifier_calls (snd (sendConfirmationEmail smtp to token w)) = notifier_calls w @ [(to, token)]"
  by (simp add: sendConfirmationEmail_def Let_def split: option.splits)

lemma subscribers_send:
  "subscribers (snd (sendConfirmationEmail smtp to token w)) = subscribers w"
  by (simp add: sendConfirmationEmail_def Let_def split: option.splits)

lemma send_returns:
  assumes "\<not> falsy (smtp_username w)" "\<not> falsy (smtp_password w)" "base_url w = Some base" "base \<noteq> []"
  shows "sendConfirmationEmail None to token w =
           (Inr (),
            w\<lparr>notifier_calls := notifier_calls w @ [(to, token)],
              outbox := outbox w @
                [\<lparr>mail_to = to, mail_subject = ''Confirm Your Subscription to Our Mailing List'',
                  mail_link = confirmationLink base token\<rparr>]\<rparr>)"
  using assms by (simp add: sendConfirmationEmail_def Let_def)

lemma send_throws:
  assumes "falsy (smtp_username w) \<or> falsy (smtp_password w) \<or> falsy (base_url w) \<or> smtp \<noteq> None"
  shows "\<exists>e. sendConfirmationEmail smtp to token w =
           (Inl e, w\<lparr>notifier_calls := notifier_calls w @ [(to, token)]\<rparr>)"
  using assms by (auto simp: sendConfirmationEmail_def Let_def split: option.splits)

subsection \<open>The insert statement\<close>

lemma upsert_created:
  assumes "\<forall>r \<in> set rows. email r \<noteq> key"
  shows "insert_statement key token nid t rows =
           ([(nid, pending, key)],
            rows @ [\<lparr>row_id = nid, email = key, status = pending, confirmation_token = Some token,
                     created_at = t, updated_at = t\<rparr>])"
  using assms by (auto simp: insert_statement_def Let_def filter_empty_conv)

lemma upsert_rows_existing:
  assumes "\<exists>r \<in> set rows. email r = key"
  shows "snd (insert_statement key token nid t rows) =
           map (\<lambda>r. if email r = key then on_conflict token t r else r) rows"
  using assms by (simp add: insert_statement_def Let_def)

lemma email_on_conflict [simp]: "email (on_conflict token t r) = email r"
  by (simp add: on_conflict_def)

lemma upsert_has_row:
  "\<exists>r \<in> set (snd (insert_statement key token nid t rows)). email r = key"
proof (cases "\<exists>r \<in> set rows. email r = key")
  case True
  then obtain r where "r \<in> set rows" "email r = key" by blast
  then have "on_conflict token t r \<in> set (snd (insert_statement key token nid t rows))"
    using True by (force simp: insert_statement_def Let_def)
  then show ?thesis using \<open>email r = key\<close> by (metis email_on_conflict)
next
  case False
  then show ?thesis by (simp add: insert_statement_def Let_def)
qed

lemma upsert_result:
  "\<exists>r rest. find (\<lambda>x. email x = key) (snd (insert_statement key token nid t rows)) = Some r
     \<and> email r = key
     \<and> fst (insert_statement key token nid t rows) = (row_id r, status r, key) # rest"
proof -
  let ?rows' = "snd (insert_statement key token nid t rows)"
  obtain r where r: "find (\<lambda>x. email x = key) ?rows' = Some r"
    using upsert_has_row [of key token nid t rows] by (cases "find (\<lambda>x. email x = key) ?rows'") (auto simp: find_None_iff)
  then have e: "email r = key" by (auto simp: find_Some_iff)
  obtain ys where "filter (\<lambda>x. email x = key) ?rows' = r # ys"
    using find_filter_Cons [OF r] by blast
  moreover have "fst (insert_statement key token nid t rows) =
      map (\<lambda>r. (row_id r, status r, email r)) (filter (\<lambda>x. email x = key) ?rows')"
    by (simp add: insert_statement_def Let_def)
  ultimately show ?thesis using r e by simp
qed

lemma upsert_row_state:
  assumes "r \<in> set (snd (insert_statement key token nid t rows))" "email r = key"
  shows "confirmation_token r = Some token \<and> status r \<noteq> unsubscribed"
proof (cases "\<exists>x \<in> set rows. email x = key")
  case True
  then have "r \<in> (\<lambda>x. if email x = key then on_conflict token t x else x) ` set rows"
    using assms(1) by (simp add: insert_statement_def Let_def)
  then obtain x where "r = (if email x = key then on_conflict token t x else x)" by blast
  then have "r = on_conflict token t x" using assms(2) by (simp split: if_splits)
  then show ?thesis by (simp add: on_conflict_def)
next
  case False
  then have "r \<in> set rows \<or> r = \<lparr>row_id = nid, email = key, status = pending,
      confirmation_token = Some token, created_at = t, updated_at = t\<rparr>"
    using assms(1) by (auto simp: insert_statement_def Let_def)
  then show ?thesis
  proof
    assume "r \<in> set rows"
    then show ?thesis using False assms(2) by blast
  next
    assume "r = \<lparr>row_id = nid, email = key, status = pending,
      confirmation_token = Some token, created_at = t, updated_at = t\<rparr>"
    then show ?thesis by simp
  qed
qed


lemma returned_rows_part_000:
  "fst (insert_statement_part_000 key token nid t rows) =
   fst (insert_statement key token nid t rows)"
proof -
  have "map (\<lambda>r. (row_id r, status r, email r))
          (filter (\<lambda>r. email r = key)
             (map (\<lambda>r. if email r = key then on_conflict_part_000 token r else r) xs)) =
        map (\<lambda>r. (row_id r, status r, email r))
          (filter (\<lambda>r. email r = key)
             (map (\<lambda>r. if email r = key then on_conflict token t r else r) xs))" for xs
    by (induction xs) (simp_all add: on_conflict_def on_conflict_part_000_def)
  then show ?thesis
    by (simp add: insert_statement_part_000_def insert_statement_def Let_def)
qed

lemma upsert_addresses:
  "map email (snd (insert_statement key token nid t rows)) =
     (if key \<in> set (map email rows) then map email rows else map email rows @ [key])"
proof -
  have "map email (map (\<lambda>r. if email r = key then on_conflict token t r else r) rows) = map email rows"
    by (induction rows) simp_all
  then show ?thesis
    by (auto simp: insert_statement_def Let_def)
qed

lemma upsert_keeps_inv:
  assumes "\<forall>r \<in> set rows. (status r = pending \<longrightarrow> confirmation_token r \<noteq> None)
                          \<and> (confirmation_token r = None \<longrightarrow> status r = confirmed)"
    and "r \<in> set (snd (insert_statement key token nid t rows))"
  shows "(status r = pending \<longrightarrow> confirmation_token r \<noteq> None)
       \<and> (confirmation_token r = None \<longrightarrow> status r = confirmed)"
proof (cases "email r = key")
  case True
  from upsert_row_state [OF assms(2) True] show ?thesis by simp
next
  case False
  then have "r \<in> set rows"
    using assms(2) by (auto simp: insert_statement_def Let_def split: if_splits)
  then show ?thesis using assms(1) by blast
qed

lemma upsert_never_clears:
  assumes "i < length (snd (insert_statement key token nid t rows))"
    and "confirmation_token (snd (insert_statement key token nid t rows) ! i) = None"
  shows "i < length rows \<and> snd (insert_statement key token nid t rows) ! i = rows ! i"
proof (cases "\<exists>r \<in> set rows. email r = key")
  case True
  note rows' = upsert_rows_existing [OF True, of token nid t]
  have i: "i < length rows" using assms(1) rows' by simp
  have "email (rows ! i) \<noteq> key"
    using assms(2) i unfolding rows' by (auto simp: on_conflict_def)
  then show ?thesis using i unfolding rows' by simp
next
  case False
  then have rows': "snd (insert_statement key token nid t rows) =
      rows @ [\<lparr>row_id = nid, email = key, status = pending, confirmation_token = Some token,
               created_at = t, updated_at = t\<rparr>]"
    using upsert_created [of rows key token nid t] by simp
  have "i \<noteq> length rows" using assms(2) unfolding rows' by auto
  then have "i < length rows" using assms(1) unfolding rows' by simp
  then show ?thesis unfolding rows' by (simp add: nth_append)
qed

subsection \<open>The update statement\<close>

lemma confirmByToken_no_match:
  "\<forall>x \<in> set rows. \<not> token_matches token x \<Longrightarrow> confirmByToken token rows = ([], rows)"
  by (simp add: confirmByToken_def filter_empty_conv map_idI)

lemma confirmByToken_single:
  assumes "token_matches token r"
    and "\<forall>x \<in> set before. \<not> token_matches token x"
    and "\<forall>x \<in> set after. \<not> token_matches token x"
  shows "confirmByToken token (before @ r # after) =
          ([(row_id r, email r)],
           before @ r\<lparr>status := confirmed, confirmation_token := None\<rparr> # after)"
  using assms by (simp add: confirmByToken_def filter_empty_conv map_idI)

lemma confirmed_row_no_match:
  "\<not> token_matches token (r\<lparr>status := confirmed, confirmation_token := None\<rparr>)"
  by (simp add: token_matches_def)

lemma confirmByToken_consumes:
  "\<forall>x \<in> set (snd (confirmByToken token rows)). \<not> token_matches token x"
  by (auto simp: confirmByToken_def token_matches_def)

lemma confirmByToken_hit:
  "fst (confirmByToken token rows) \<noteq> [] \<longleftrightarrow> (\<exists>x \<in> set rows. token_matches token x)"
  by (auto simp: confirmByToken_def filter_empty_conv)

lemma confirm_addresses: "map email (snd (confirmByToken token rows)) = map email rows"
  by (induction rows) (simp_all add: confirmByToken_def)

lemma confirm_keeps_inv:
  assumes "\<forall>r \<in> set rows. (status r = pending \<longrightarrow> confirmation_token r \<noteq> None)
                          \<and> (confirmation_token r = None \<longrightarrow> status r = confirmed)"
    and "r \<in> set (snd (confirmByToken token rows))"
  shows "(status r = pending \<longrightarrow> confirmation_token r \<noteq> None)
       \<and> (confirmation_token r = None \<longrightarrow> status r = confirmed)"
proof -
  obtain x where x: "x \<in> set rows"
      "r = (if token_matches token x then x\<lparr>status := confirmed, confirmation_token := None\<rparr> else x)"
    using assms(2) by (auto simp: confirmByToken_def)
  show ?thesis
  proof (cases "token_matches token x")
    case True
    then show ?thesis using x(2) by simp
  next
    case False
    then show ?thesis using x assms(1) by simp
  qed
qed

lemma confirm_clears:
  assumes "i < length rows"
  shows "(confirmation_token (rows ! i) \<noteq> None \<and> confirmation_token (snd (confirmByToken token rows) ! i) = None)
         \<longleftrightarrow> token_matches token (rows ! i)"
    and "token_matches token (rows ! i) \<Longrightarrow> status (snd (confirmByToken token rows) ! i) = confirmed"
  using assms by (auto simp: confirmByToken_def token_matches_def)

section \<open>Facts about the handlers\<close>

subsection \<open>The subscribe handler\<close>

lemma stored_fields [simp]:
  "notifier_calls (stored w io addr) = notifier_calls w" "outbox (stored w io addr) = outbox w"
  "smtp_username (stored w io addr) = smtp_username w" "smtp_password (stored w io addr) = smtp_password w"
  "base_url (stored w io addr) = base_url w"
  by (simp_all add: stored_def upsertPendingSubscriber_def)

lemma stored_row:
  "\<exists>r. find (\<lambda>x. email x = toWellFormed addr) (subscribers (stored w io addr)) = Some r \<and> email r = toWellFormed addr
     \<and> confirmation_token r = Some (uuid io) \<and> (status r = confirmed \<or> status r = pending)"
proof -
  obtain r where r: "find (\<lambda>x. email x = toWellFormed addr) (subscribers (stored w io addr)) = Some r" "email r = toWellFormed addr"
    using upsert_result [of "toWellFormed addr" "uuid io" "new_id io" "now io" "subscribers w"]
    by (auto simp: stored_def upsertPendingSubscriber_def)
  then have "r \<in> set (snd (insert_statement (toWellFormed addr) (uuid io) (new_id io) (now io) (subscribers w)))"
    using find_Some_set [OF r(1)] by (simp add: stored_def upsertPendingSubscriber_def)
  then have "confirmation_token r = Some (uuid io) \<and> status r \<noteq> unsubscribed"
    using r(2) by (rule upsert_row_state)
  then show ?thesis using r by (cases "status r") auto
qed

lemma stored_row_pending:
  assumes "\<forall>r \<in> set (subscribers w). email r = toWellFormed addr \<longrightarrow> status r \<noteq> confirmed"
    and "find (\<lambda>x. email x = toWellFormed addr) (subscribers (stored w io addr)) = Some r"
  shows "status r \<noteq> confirmed"
proof -
  have r: "r \<in> set (snd (insert_statement (toWellFormed addr) (uuid io) (new_id io) (now io) (subscribers w)))"
      "email r = toWellFormed addr"
    using find_Some_set [OF assms(2)] by (simp_all add: stored_def upsertPendingSubscriber_def)
  show ?thesis
  proof (cases "\<exists>x \<in> set (subscribers w). email x = toWellFormed addr")
    case True
    then have "r \<in> (\<lambda>x. if email x = toWellFormed addr then on_conflict (uuid io) (now io) x else x) ` set (subscribers w)"
      using r(1) by (simp add: upsert_rows_existing)
    then obtain x where x: "x \<in> set (subscribers w)"
        "r = (if email x = toWellFormed addr then on_conflict (uuid io) (now io) x else x)" by blast
    then have "email x = toWellFormed addr" using r(2) by (simp split: if_splits)
    then have "r = on_conflict (uuid io) (now io) x" "status x \<noteq> confirmed"
      using x assms(1) by simp_all
    then show ?thesis by (simp add: on_conflict_def)
  next
    case False
    then have none: "\<forall>x \<in> set (subscribers w). email x \<noteq> toWellFormed addr" by blast
    define new where "new = \<lparr>row_id = new_id io, email = toWellFormed addr, status = pending,
      confirmation_token = Some (uuid io), created_at = now io, updated_at = now io\<rparr>"
    have "r \<in> set (subscribers w @ [new])"
      using upsert_created [OF none, of "uuid io" "new_id io" "now io"] r(1) unfolding new_def by simp
    then have "r = new" using none r(2) by auto
    then show ?thesis by (simp add: new_def)
  qed
qed

lemma POST_stored:
  assumes "addr \<noteq> []" "emailRegex_test addr" "\<not> select1_throws io" "\<not> upsert_throws io"
    and "find (\<lambda>x. email x = toWellFormed addr) (subscribers (stored w io addr)) = Some r"
  shows "POST w io (Parsed (Some addr)) =
           (if status r = confirmed
            then (json ''You are already subscribed and confirmed!'' 200, stored w io addr)
            else (case sendConfirmationEmail (sendMail_throws io) (toWellFormed addr) (uuid io) (stored w io addr) of
                    (Inr _, w'') \<Rightarrow> (json ''Please check your email to confirm your subscription!'' 200, w'')
                  | (Inl _, w'') \<Rightarrow>
                      (json ''Failed to send confirmation email. Please try again or contact support.'' 500, w'')))"
proof -
  obtain r' rest where r': "find (\<lambda>x. email x = toWellFormed addr)
        (snd (insert_statement (toWellFormed addr) (uuid io) (new_id io) (now io) (subscribers w))) = Some r'"
      and res: "fst (insert_statement (toWellFormed addr) (uuid io) (new_id io) (now io) (subscribers w)) =
        (row_id r', status r', toWellFormed addr) # rest"
    using upsert_result by blast
  obtain result rows' where U:
    "insert_statement (toWellFormed addr) (uuid io) (new_id io) (now io) (subscribers w) = (result, rows')"
    by (cases "insert_statement (toWellFormed addr) (uuid io) (new_id io) (now io) (subscribers w)")
  have "r' = r" using r' assms(5) by (simp add: stored_def upsertPendingSubscriber_def)
  then have "result = (row_id r, status r, toWellFormed addr) # rest" using res U by simp
  moreover have "stored w io addr = w\<lparr>subscribers := rows'\<rparr>" by (simp add: stored_def upsertPendingSubscriber_def U)
  ultimately show ?thesis
    using assms(1-4)
    by (simp add: POST_def upsertPendingSubscriber_def U)
qed

lemma POST_world:
  assumes "addr \<noteq> []" "emailRegex_test addr" "\<not> select1_throws io" "\<not> upsert_throws io"
    and "find (\<lambda>x. email x = toWellFormed addr) (subscribers (stored w io addr)) = Some r"
  shows "snd (POST w io (Parsed (Some addr))) =
           (if status r = confirmed then stored w io addr
            else snd (sendConfirmationEmail (sendMail_throws io) (toWellFormed addr) (uuid io) (stored w io addr)))"
  using POST_stored [OF assms] by (simp split: prod.splits sum.splits)

lemma POST_subscribers:
  assumes "addr \<noteq> []" "emailRegex_test addr" "\<not> select1_throws io" "\<not> upsert_throws io"
  shows "subscribers (snd (POST w io (Parsed (Some addr)))) = subscribers (stored w io addr)"
proof -
  obtain r where "find (\<lambda>x. email x = toWellFormed addr) (subscribers (stored w io addr)) = Some r"
    using stored_row by blast
  from POST_world [OF assms this] show ?thesis by (simp add: subscribers_send)
qed

lemma POST_subscribers_cases:
  "subscribers (snd (POST w io requestBody)) = subscribers w
   \<or> (\<exists>key. subscribers (snd (POST w io requestBody)) =
          snd (insert_statement key (uuid io) (new_id io) (now io) (subscribers w)))"
proof (cases "\<exists>addr. requestBody = Parsed (Some addr) \<and> addr \<noteq> [] \<and> emailRegex_test addr
                \<and> \<not> select1_throws io \<and> \<not> upsert_throws io")
  case True
  then obtain addr where "requestBody = Parsed (Some addr)" "addr \<noteq> []" "emailRegex_test addr"
    "\<not> select1_throws io" "\<not> upsert_throws io" by blast
  then show ?thesis using POST_subscribers [of addr io w] by (auto simp: stored_def upsertPendingSubscriber_def)
next
  case False
  then have "snd (POST w io requestBody) = w"
    by (auto simp: POST_def split: request_body.splits option.splits)
  then show ?thesis by simp
qed



lemma notifier_throws_responses:
  assumes "addr \<noteq> []" "emailRegex_test addr" "\<not> upsert_throws io"
    and "\<forall>r \<in> set (subscribers w). email r = toWellFormed addr \<longrightarrow> status r \<noteq> confirmed"
    and "falsy (smtp_username w) \<or> falsy (smtp_password w) \<or> falsy (base_url w) \<or> sendMail_throws io \<noteq> None"
  shows "\<not> select1_throws io \<Longrightarrow> fst (POST w io (Parsed (Some addr))) =
           json ''Failed to send confirmation email. Please try again or contact support.'' 500"
    and "fst (POST_part_000 w io (Parsed (Some addr))) =
           json ''Failed to subscribe. Please try again later.'' 500"
    and "fst (POST_part_001 w io (Parsed (Some addr))) =
           json (''Subscription saved! Please check your email or contact support if you don''
                 @ [CHR 0x27] @ ''t receive confirmation.'') 200"
proof -
  obtain r rest where r: "find (\<lambda>x. email x = toWellFormed addr) (subscribers (stored w io addr)) = Some r"
    and res: "fst (insert_statement (toWellFormed addr) (uuid io) (new_id io) (now io) (subscribers w)) =
                (row_id r, status r, toWellFormed addr) # rest"
    using upsert_result [of "toWellFormed addr" "uuid io" "new_id io" "now io" "subscribers w"]
    by (auto simp: stored_def upsertPendingSubscriber_def)
  have st: "status r \<noteq> confirmed"
    using assms(4) r by (rule stored_row_pending)
  have throws: "\<exists>e. sendConfirmationEmail (sendMail_throws io) (toWellFormed addr) (uuid io) (w\<lparr>subscribers := rows'\<rparr>) =
      (Inl e, w\<lparr>subscribers := rows', notifier_calls := notifier_calls w @ [(toWellFormed addr, uuid io)]\<rparr>)" for rows'
    using send_throws [of "w\<lparr>subscribers := rows'\<rparr>" "sendMail_throws io" "toWellFormed addr" "uuid io"] assms(5)
    by simp
  show "fst (POST w io (Parsed (Some addr))) =
           json ''Failed to send confirmation email. Please try again or contact support.'' 500"
    if "\<not> select1_throws io"
  proof -
    obtain e where "sendConfirmationEmail (sendMail_throws io) (toWellFormed addr) (uuid io) (stored w io addr) =
      (Inl e, (stored w io addr)\<lparr>notifier_calls := notifier_calls w @ [(toWellFormed addr, uuid io)]\<rparr>)"
      using throws [of "subscribers (stored w io addr)"] by (auto simp: stored_def upsertPendingSubscriber_def)
    then show ?thesis
      using POST_stored [OF assms(1,2) that assms(3) r] st by simp
  qed
  obtain result0 rows0 where U0:
    "insert_statement_part_000 (toWellFormed addr) (uuid io) (new_id io) (now io) (subscribers w) = (result0, rows0)"
    by (cases "insert_statement_part_000 (toWellFormed addr) (uuid io) (new_id io) (now io) (subscribers w)")
  have res0: "result0 = (row_id r, status r, toWellFormed addr) # rest"
    using returned_rows_part_000 [of "toWellFormed addr" "uuid io" "new_id io" "now io" "subscribers w"] U0 res by simp
  obtain e where S: "sendConfirmationEmail (sendMail_throws io) (toWellFormed addr) (uuid io) (w\<lparr>subscribers := rows0\<rparr>) =
      (Inl e, w\<lparr>subscribers := rows0, notifier_calls := notifier_calls w @ [(toWellFormed addr, uuid io)]\<rparr>)"
    using throws by blast
  show "fst (POST_part_000 w io (Parsed (Some addr))) =
           json ''Failed to subscribe. Please try again later.'' 500"
    using assms(1-3) st by (simp add: POST_part_000_def upsertPendingSubscriber_part_000_def U0 res0 S)
  show "fst (POST_part_001 w io (Parsed (Some addr))) =
           json (''Subscription saved! Please check your email or contact support if you don''
                 @ [CHR 0x27] @ ''t receive confirmation.'') 200"
    using assms(1-3) st by (simp add: POST_part_001_def upsertPendingSubscriber_part_000_def U0 res0 S)
qed

subsection \<open>The confirm handler\<close>

lemma GET_subscribers:
  "token \<noteq> [] \<Longrightarrow>
     subscribers (snd (GET w False (Some token))) = snd (confirmByToken token (subscribers w))"
  by (simp add: GET_def split: prod.splits)

lemma GET_subscribers_cases:
  "(\<exists>token. param = Some token \<and> token \<noteq> [] \<and> \<not> update_throws
      \<and> subscribers (snd (GET w update_throws param)) = snd (confirmByToken token (subscribers w))
      \<and> (http_status (fst (GET w update_throws param)) = 200 \<longleftrightarrow>
           (\<exists>x \<in> set (subscribers w). token_matches token x)))
   \<or> ((param = None \<or> param = Some [] \<or> update_throws) \<and> snd (GET w update_throws param) = w)"
proof (cases "\<exists>token. param = Some token \<and> token \<noteq> [] \<and> \<not> update_throws")
  case True
  then obtain token where t: "param = Some token" "token \<noteq> []" "\<not> update_throws" by blast
  obtain result rows' where q: "confirmByToken token (subscribers w) = (result, rows')"
    by (cases "confirmByToken token (subscribers w)")
  have "result \<noteq> [] \<longleftrightarrow> (\<exists>x \<in> set (subscribers w). token_matches token x)"
    using confirmByToken_hit [of token "subscribers w"] q by simp
  then show ?thesis using t q by (auto simp: GET_def json_def)
next
  case False
  then show ?thesis by (cases param) (auto simp: GET_def)
qed

subsection \<open>Reachable states\<close>

lemma reachable_inv:
  "reachable w \<Longrightarrow>
     \<forall>r \<in> set (subscribers w). (status r = pending \<longrightarrow> confirmation_token r \<noteq> None)
                          \<and> (confirmation_token r = None \<longrightarrow> status r = confirmed)"
proof (induction rule: reachable.induct)
  case (initial w)
  then show ?case by simp
next
  case (subscribe w io requestBody)
  from POST_subscribers_cases [of w io requestBody] show ?case
  proof (elim disjE exE)
    assume "subscribers (snd (POST w io requestBody)) = subscribers w"
    then show ?thesis using subscribe.IH by simp
  next
    fix key
    assume e: "subscribers (snd (POST w io requestBody)) =
      snd (insert_statement key (uuid io) (new_id io) (now io) (subscribers w))"
    show ?thesis unfolding e by (intro ballI) (rule upsert_keeps_inv [OF subscribe.IH])
  qed
next
  case (confirm w update_throws param)
  have "subscribers (snd (GET w update_throws param)) = subscribers w
      \<or> (\<exists>token. subscribers (snd (GET w update_throws param)) =
            snd (confirmByToken token (subscribers w)))"
    using GET_subscribers_cases [of param update_throws w] by auto
  then show ?case
  proof (elim disjE exE)
    fix token
    assume e: "subscribers (snd (GET w update_throws param)) = snd (confirmByToken token (subscribers w))"
    show ?thesis unfolding e by (intro ballI) (rule confirm_keeps_inv [OF confirm.IH])
  next
    assume "subscribers (snd (GET w update_throws param)) = subscribers w"
    then show ?thesis using confirm.IH by simp
  qed
qed

text \<open>
  The table never holds two rows for one address: the insert statement adds a row only
  for an address that has none.
\<close>

lemma reachable_one_row_per_address:
  "reachable w \<Longrightarrow> distinct (map email (subscribers w))"
proof (induction rule: reachable.induct)
  case (initial w)
  then show ?case by simp
next
  case (subscribe w io requestBody)
  from POST_subscribers_cases [of w io requestBody] show ?case
  proof (elim disjE exE)
    assume "subscribers (snd (POST w io requestBody)) = subscribers w"
    then show ?thesis using subscribe.IH by simp
  next
    fix key
    assume "subscribers (snd (POST w io requestBody)) =
      snd (insert_statement key (uuid io) (new_id io) (now io) (subscribers w))"
    then show ?thesis using subscribe.IH by (simp add: upsert_addresses)
  qed
next
  case (confirm w update_throws param)
  have "subscribers (snd (GET w update_throws param)) = subscribers w
      \<or> (\<exists>token. subscribers (snd (GET w update_throws param)) =
            snd (confirmByToken token (subscribers w)))"
    using GET_subscribers_cases [of param update_throws w] by auto
  then show ?case using confirm.IH by (auto simp: confirm_addresses)
qed

section \<open>Facts about the sample values\<close>

lemmas sample_defs = sample_world_def sample_address_def sample_token_def other_token_def
  sample_io_def later_io_def refused_def mail_down_io_def store_down_io_def sample_row_def other_row_def pending_world_def
  confirmed_world_def lapsed_world_def unknown_token_def utf16_def

lemma sample_address_valid: "emailRegex_test sample_address" "sample_address \<noteq> []"
  by (simp_all add: pattern_defs sample_defs)

lemma sample_address_stored: "toWellFormed sample_address = sample_address"
  by (simp add: sample_address_def utf16_def is_high_surrogate_def is_low_surrogate_def)

lemma lone_surrogate_address_valid:
  "emailRegex_test lone_surrogate_address" "lone_surrogate_address \<noteq> []"
  "toWellFormed lone_surrogate_address = replaced_address"
  by (simp_all add: pattern_defs lone_surrogate_address_def replaced_address_def utf16_def
      is_high_surrogate_def is_low_surrogate_def)

lemma sample_token_nonempty: "sample_token \<noteq> []"
  by (simp add: sample_token_def utf16_def)

lemma sample_io_ok:
  "\<not> select1_throws sample_io" "\<not> upsert_throws sample_io"
  "\<not> select1_throws later_io" "\<not> upsert_throws later_io"
  by (simp_all add: sample_defs)

lemma mail_down_io_fields:
  "\<not> select1_throws mail_down_io" "\<not> upsert_throws mail_down_io" "sendMail_throws mail_down_io \<noteq> None"
  "upsert_throws store_down_io" "\<not> select1_throws store_down_io"
  by (simp_all add: mail_down_io_def store_down_io_def sample_io_def)

lemma sample_subscribe_rows:
  "subscribers (snd (POST sample_world sample_io (Parsed (Some sample_address)))) = [sample_row]"
proof -
  have "\<forall>r \<in> set (subscribers sample_world). email r \<noteq> sample_address"
    by (simp add: sample_world_def)
  from upsert_created [OF this, of "uuid sample_io" "new_id sample_io" "now sample_io"]
  show ?thesis
    unfolding POST_subscribers [OF sample_address_valid(2,1) sample_io_ok(1,2)] stored_def
      upsertPendingSubscriber_def sample_address_stored
    by (simp add: sample_io_def sample_row_def sample_world_def)
qed

lemma mail_down_subscribe_rows:
  "subscribers (snd (POST sample_world mail_down_io (Parsed (Some sample_address)))) = [sample_row]"
proof -
  have "\<forall>r \<in> set (subscribers sample_world). email r \<noteq> sample_address"
    by (simp add: sample_world_def)
  from upsert_created [OF this, of "uuid mail_down_io" "new_id mail_down_io" "now mail_down_io"]
  show ?thesis
    unfolding POST_subscribers [OF sample_address_valid(2,1) mail_down_io_fields(1,2)] stored_def
      upsertPendingSubscriber_def sample_address_stored
    by (simp add: mail_down_io_def sample_io_def sample_row_def sample_world_def)
qed

lemma confirmed_resubscribe_rows:
  "subscribers (snd (POST confirmed_world later_io (Parsed (Some sample_address)))) =
     [sample_row\<lparr>status := confirmed, confirmation_token := Some other_token, updated_at := 2000\<rparr>]"
  unfolding POST_subscribers [OF sample_address_valid(2,1) sample_io_ok(3,4)] stored_def
    upsertPendingSubscriber_def sample_address_stored
  by (simp add: insert_statement_def on_conflict_def confirmed_world_def sample_row_def later_io_def)

lemma subscribed_world_rows: "subscribers subscribed_world = [sample_row]"
  unfolding subscribed_world_def by (rule sample_subscribe_rows)

lemma confirmed_once_world_rows:
  "subscribers confirmed_once_world = [sample_row\<lparr>status := confirmed, confirmation_token := None\<rparr>]"
  unfolding confirmed_once_world_def GET_subscribers [OF sample_token_nonempty] subscribed_world_rows
  by (simp add: confirmByToken_def token_matches_def sample_row_def)

lemma resubscribed_world_rows:
  "subscribers resubscribed_world =
     [sample_row\<lparr>status := confirmed, confirmation_token := Some other_token, updated_at := 2000\<rparr>]"
  unfolding resubscribed_world_def POST_subscribers [OF sample_address_valid(2,1) sample_io_ok(3,4)]
    stored_def upsertPendingSubscriber_def sample_address_stored confirmed_once_world_rows
  by (simp add: insert_statement_def on_conflict_def sample_row_def later_io_def)

lemma reachable_samples:
  "reachable sample_world" "reachable subscribed_world" "reachable confirmed_once_world"
  "reachable resubscribed_world"
proof -
  show a: "reachable sample_world" by (rule reachable.initial) (simp add: sample_world_def)
  show b: "reachable subscribed_world" unfolding subscribed_world_def using a by (rule reachable.subscribe)
  show c: "reachable confirmed_once_world" unfolding confirmed_once_world_def using b by (rule reachable.confirm)
  show "reachable resubscribed_world" unfolding resubscribed_world_def using c by (rule reachable.subscribe)
qed

section \<open>Confirming a pending subscription\<close>

text \<open>
  Claim C1 says that the confirm operation returns its success outcome with the
  confirmed address. In a table where one pending row holds a token for
  \<^verbatim>\<open>a@example.com\<close> and another pending row holds a different token for
  \<^verbatim>\<open>b@example.com\<close>, confirming either token makes the statement return that row's
  address to the handler, and the handler gives the same reply to both calls: status 200
  and a fixed message. The address is written to the console only; the reply does not
  carry it.
\<close>

theorem confirm_reply_without_address:
  "fst (confirmByToken sample_token (subscribers pending_world)) = [(1, utf16 ''a@example.com'')]
   \<and> fst (confirmByToken other_token (subscribers pending_world)) = [(7, utf16 ''b@example.com'')]
   \<and> fst (GET pending_world False (Some sample_token)) =
       \<lparr>http_status = 200, message = ''Your subscription has been successfully confirmed!''\<rparr>
   \<and> fst (GET pending_world False (Some other_token)) =
       \<lparr>http_status = 200, message = ''Your subscription has been successfully confirmed!''\<rparr>"
proof -
  have a: "fst (confirmByToken sample_token (subscribers pending_world)) = [(1, utf16 ''a@example.com'')]"
    and b: "fst (confirmByToken other_token (subscribers pending_world)) = [(7, utf16 ''b@example.com'')]"
    by (simp_all add: confirmByToken_def token_matches_def sample_defs)
  have "sample_token \<noteq> []" "other_token \<noteq> []"
    by (simp_all add: sample_token_def other_token_def utf16_def)
  then have "fst (GET pending_world False (Some sample_token)) =
       \<lparr>http_status = 200, message = ''Your subscription has been successfully confirmed!''\<rparr>"
    and "fst (GET pending_world False (Some other_token)) =
       \<lparr>http_status = 200, message = ''Your subscription has been successfully confirmed!''\<rparr>"
    using a b by (auto simp: GET_def json_def split: prod.splits)
  with a b show ?thesis by (intro conjI) assumption+
qed

text \<open>
  Claim C1, amended. Let the table hold exactly one row whose token is the given,
  non-empty token and whose status is pending, and let the update statement not fail.
  Then the confirm handler runs one conditional update, which sets that row's status to
  confirmed and its token to null and leaves every other row as it was; the statement
  returns that row's identifier and address to the handler, and the handler answers 200
  with the fixed message of success, which does not contain the address.
\<close>

theorem confirm_pending_token:
  assumes "token \<noteq> []"
    and "subscribers w = before @ r # after"
    and "confirmation_token r = Some token" and "status r = pending"
    and "\<forall>x \<in> set before \<union> set after. \<not> (confirmation_token x = Some token \<and> status x = pending)"
  shows "fst (confirmByToken token (subscribers w)) = [(row_id r, email r)]
       \<and> fst (GET w False (Some token)) =
           \<lparr>http_status = 200, message = ''Your subscription has been successfully confirmed!''\<rparr>
       \<and> snd (GET w False (Some token)) =
           w\<lparr>subscribers := before @ r\<lparr>status := confirmed, confirmation_token := None\<rparr> # after\<rparr>"
proof -
  have hit: "token_matches token r"
    using assms(3,4) by (simp add: token_matches_def)
  have miss: "\<forall>x \<in> set before. \<not> token_matches token x" "\<forall>x \<in> set after. \<not> token_matches token x"
    using assms(5) by (simp_all add: token_matches_def)
  have q: "confirmByToken token (subscribers w) =
             ([(row_id r, email r)],
              before @ r\<lparr>status := confirmed, confirmation_token := None\<rparr> # after)"
    unfolding assms(2) using hit miss by (rule confirmByToken_single)
  show ?thesis
    using assms(1) by (simp add: GET_def q json_def)
qed

theorem confirm_pending_token_witness:
  "fst (confirmByToken sample_token (subscribers pending_world)) = [(row_id sample_row, email sample_row)]
   \<and> fst (GET pending_world False (Some sample_token)) =
       \<lparr>http_status = 200, message = ''Your subscription has been successfully confirmed!''\<rparr>
   \<and> snd (GET pending_world False (Some sample_token)) =
       pending_world\<lparr>subscribers :=
         [other_row] @ sample_row\<lparr>status := confirmed, confirmation_token := None\<rparr> # []\<rparr>"
proof -
  have h1: "sample_token \<noteq> []" by (simp add: sample_defs)
  have h2: "subscribers pending_world = [other_row] @ sample_row # []" by (simp add: sample_defs)
  have h3: "confirmation_token sample_row = Some sample_token" by (simp add: sample_defs)
  have h4: "status sample_row = pending" by (simp add: sample_defs)
  have h5: "\<forall>x \<in> set [other_row] \<union> set [].
              \<not> (confirmation_token x = Some sample_token \<and> status x = pending)"
    by (simp add: sample_defs)
  show ?thesis using confirm_pending_token [OF h1 h2 h3 h4 h5] .
qed

section \<open>Confirming with a token that matches no row\<close>

text \<open>
  Claim C4. A confirm call with a non-empty token that no pending row holds, on a store
  that answers, gets 404 with the message of an invalid or used link, and the state is
  exactly what it was. If some pending row holds the token, the call answers 200, and a
  second call with the same token answers 404 and changes nothing.
\<close>

theorem confirm_no_match:
  assumes "token \<noteq> []"
  shows "((\<forall>x \<in> set (subscribers w). \<not> (confirmation_token x = Some token \<and> status x = pending)) \<longrightarrow>
            GET w False (Some token) =
              (\<lparr>http_status = 404,
                message = ''Invalid or expired confirmation link, or subscription already confirmed.''\<rparr>, w))
       \<and> ((\<exists>x \<in> set (subscribers w). confirmation_token x = Some token \<and> status x = pending) \<longrightarrow>
            http_status (fst (GET w False (Some token))) = 200
          \<and> GET (snd (GET w False (Some token))) False (Some token) =
              (\<lparr>http_status = 404,
                message = ''Invalid or expired confirmation link, or subscription already confirmed.''\<rparr>,
               snd (GET w False (Some token))))"
proof (intro conjI impI)
  assume "\<forall>x \<in> set (subscribers w). \<not> (confirmation_token x = Some token \<and> status x = pending)"
  then have "confirmByToken token (subscribers w) = ([], subscribers w)"
    by (intro confirmByToken_no_match) (simp add: token_matches_def)
  then show "GET w False (Some token) =
              (\<lparr>http_status = 404,
                message = ''Invalid or expired confirmation link, or subscription already confirmed.''\<rparr>, w)"
    using assms by (simp add: GET_def json_def)
next
  assume ex: "\<exists>x \<in> set (subscribers w). confirmation_token x = Some token \<and> status x = pending"
  then have "fst (confirmByToken token (subscribers w)) \<noteq> []"
    by (simp add: confirmByToken_hit token_matches_def)
  then show "http_status (fst (GET w False (Some token))) = 200"
    using assms by (auto simp: GET_def json_def split: prod.splits)
next
  assume ex: "\<exists>x \<in> set (subscribers w). confirmation_token x = Some token \<and> status x = pending"
  let ?w1 = "snd (GET w False (Some token))"
  have "subscribers ?w1 = snd (confirmByToken token (subscribers w))"
    using assms by (simp add: GET_def split: prod.splits)
  then have "\<forall>x \<in> set (subscribers ?w1). \<not> token_matches token x"
    by (simp add: confirmByToken_consumes)
  then have "confirmByToken token (subscribers ?w1) = ([], subscribers ?w1)"
    by (rule confirmByToken_no_match)
  then show "GET ?w1 False (Some token) =
              (\<lparr>http_status = 404,
                message = ''Invalid or expired confirmation link, or subscription already confirmed.''\<rparr>, ?w1)"
    using assms by (simp add: GET_def[of ?w1] json_def)
qed

theorem confirm_no_match_witness:
  "GET pending_world False (Some unknown_token) =
     (\<lparr>http_status = 404,
       message = ''Invalid or expired confirmation link, or subscription already confirmed.''\<rparr>,
      pending_world)
   \<and> http_status (fst (GET pending_world False (Some sample_token))) = 200
   \<and> GET (snd (GET pending_world False (Some sample_token))) False (Some sample_token) =
       (\<lparr>http_status = 404,
         message = ''Invalid or expired confirmation link, or subscription already confirmed.''\<rparr>,
        snd (GET pending_world False (Some sample_token)))"
proof -
  have h1: "unknown_token \<noteq> []" by (simp add: unknown_token_def utf16_def)
  have h2: "\<forall>x \<in> set (subscribers pending_world).
              \<not> (confirmation_token x = Some unknown_token \<and> status x = pending)"
    by (simp add: sample_defs unknown_token_def)
  have h3: "sample_token \<noteq> []" by (simp add: sample_defs)
  have h4: "\<exists>x \<in> set (subscribers pending_world).
              confirmation_token x = Some sample_token \<and> status x = pending"
    by (simp add: sample_defs)
  show ?thesis
    using confirm_no_match [OF h1, of pending_world] confirm_no_match [OF h3, of pending_world] h2 h4
    by blast
qed

section \<open>Requests that fail validation\<close>

text \<open>
  Claim C7. A subscribe request whose address is missing, empty, one of
  \<^verbatim>\<open>"foo"\<close>, \<^verbatim>\<open>"foo@"\<close>, \<^verbatim>\<open>"@bar.com"\<close>, or any other string the pattern
  rejects, is answered 400 and the state is exactly what it was: no statement is run and
  the notifier is not called. A confirm request whose token is missing or empty is
  answered 400 and leaves the state as it was, whether or not the store would have
  answered.
\<close>

theorem validation_rejects:
  assumes "field = None \<or> field = Some [] \<or> field = Some (utf16 ''foo'') \<or> field = Some (utf16 ''foo@'')
           \<or> field = Some (utf16 ''@bar.com'') \<or> (\<exists>s. field = Some s \<and> \<not> emailRegex_test s)"
    and "param = None \<or> param = Some []"
  shows "http_status (fst (POST w io (Parsed field))) = 400 \<and> snd (POST w io (Parsed field)) = w
       \<and> http_status (fst (GET w update_throws param)) = 400 \<and> snd (GET w update_throws param) = w"
proof -
  have "field = None \<or> field = Some [] \<or> (\<exists>s. field = Some s \<and> \<not> emailRegex_test s)"
    using assms(1) malformed_examples by blast
  then have "http_status (fst (POST w io (Parsed field))) = 400 \<and> snd (POST w io (Parsed field)) = w"
    by (auto simp: POST_def json_def)
  moreover have "http_status (fst (GET w update_throws param)) = 400 \<and> snd (GET w update_throws param) = w"
    using assms(2) by (auto simp: GET_def json_def)
  ultimately show ?thesis by simp
qed

theorem validation_rejects_witness:
  "http_status (fst (POST pending_world sample_io (Parsed (Some (utf16 ''foo@''))))) = 400
   \<and> snd (POST pending_world sample_io (Parsed (Some (utf16 ''foo@'')))) = pending_world
   \<and> http_status (fst (GET pending_world False (Some []))) = 400
   \<and> snd (GET pending_world False (Some [])) = pending_world"
proof -
  have a: "Some (utf16 ''foo@'') = None \<or> Some (utf16 ''foo@'') = Some [] \<or> Some (utf16 ''foo@'') = Some (utf16 ''foo'')
       \<or> Some (utf16 ''foo@'') = Some (utf16 ''foo@'')
       \<or> Some (utf16 ''foo@'') = Some (utf16 ''@bar.com'') \<or> (\<exists>s. Some (utf16 ''foo@'') = Some s \<and> \<not> emailRegex_test s)"
    by simp
  have b: "Some [] = None \<or> Some ([] :: js_string) = Some []" by simp
  show ?thesis using validation_rejects [OF a b] .
qed

section \<open>A body that is not JSON\<close>

text \<open>
  Claim C10. A subscribe request whose body cannot be parsed is answered 400 with the
  message \<^verbatim>\<open>Invalid request format.\<close>, and the state is exactly what it was: no
  write to the table and no notifier call.
\<close>

theorem unparseable_body:
  "POST w io Unparseable = (\<lparr>http_status = 400, message = ''Invalid request format.''\<rparr>, w)"
  by (simp add: POST_def json_def)

theorem unparseable_body_witness:
  "POST pending_world sample_io Unparseable =
     (\<lparr>http_status = 400, message = ''Invalid request format.''\<rparr>, pending_world)"
  using unparseable_body [of pending_world sample_io] .


section \<open>What the insert statement does to the table\<close>



section \<open>The branch on the status after the insert statement\<close>

text \<open>
  Claim C3 says that every subscribe call that completes its insert statement with a
  pending row calls the notifier and then returns the success result that asks to check
  the mail. With the transport refusing the connection, subscribing a new address
  completes the insert statement, leaves a pending row and calls the notifier once, and
  the current handler answers 500.
\<close>

theorem pending_row_answered_500:
  "subscribers (snd (POST sample_world mail_down_io (Parsed (Some sample_address)))) =
     [\<lparr>row_id = 1, email = sample_address, status = pending,
       confirmation_token = Some sample_token, created_at = 1000, updated_at = 1000\<rparr>]
   \<and> notifier_calls (snd (POST sample_world mail_down_io (Parsed (Some sample_address)))) =
       [(sample_address, sample_token)]
   \<and> fst (POST sample_world mail_down_io (Parsed (Some sample_address))) =
       \<lparr>http_status = 500,
         message = ''Failed to send confirmation email. Please try again or contact support.''\<rparr>"
proof -
  let ?P = "POST sample_world mail_down_io (Parsed (Some sample_address))"
  let ?new = "\<lparr>row_id = 1, email = sample_address, status = pending,
       confirmation_token = Some sample_token, created_at = 1000, updated_at = 1000\<rparr>"
  have none: "\<forall>r \<in> set (subscribers sample_world). email r \<noteq> sample_address"
    by (simp add: sample_world_def)
  have st: "subscribers (stored sample_world mail_down_io sample_address) = [?new]"
    using upsert_created [OF none, of "uuid mail_down_io" "new_id mail_down_io" "now mail_down_io"]
    by (simp add: stored_def upsertPendingSubscriber_def sample_address_stored
        mail_down_io_def sample_io_def sample_world_def)
  have f: "find (\<lambda>x. email x = toWellFormed sample_address)
             (subscribers (stored sample_world mail_down_io sample_address)) = Some ?new"
    unfolding st by (simp add: sample_address_stored)
  note P = POST_stored [OF sample_address_valid(2,1) mail_down_io_fields(1,2) f]
  obtain e where S: "sendConfirmationEmail (sendMail_throws mail_down_io) (toWellFormed sample_address)
        (uuid mail_down_io) (stored sample_world mail_down_io sample_address) =
      (Inl e, (stored sample_world mail_down_io sample_address)
         \<lparr>notifier_calls := notifier_calls (stored sample_world mail_down_io sample_address)
              @ [(toWellFormed sample_address, uuid mail_down_io)]\<rparr>)"
    using send_throws [of "stored sample_world mail_down_io sample_address" "sendMail_throws mail_down_io"
        "toWellFormed sample_address" "uuid mail_down_io"] mail_down_io_fields(3)
    by blast
  have a: "subscribers (snd ?P) = [?new]"
    using P S st by simp
  have b: "notifier_calls (snd ?P) = [(sample_address, sample_token)]"
    using P S by (simp add: sample_address_stored mail_down_io_def sample_io_def sample_world_def)
  have c: "fst ?P = \<lparr>http_status = 500,
         message = ''Failed to send confirmation email. Please try again or contact support.''\<rparr>"
    using P S by (simp add: json_def)
  from a b c show ?thesis by (intro conjI) assumption+
qed

text \<open>
  Claim C3, amended. Take a subscribe call that completes its insert statement, and the
  row the statement returned first for the address as the store holds it. Its status is
  confirmed or pending. If it is confirmed, the handler answers 200 with the message of
  an existing subscription and the notifier is not called. If it is pending, the row
  holds the token generated in this call and the notifier is called exactly once, with
  the stored address and that token; when the notifier call returns, the handler
  answers 200 with the message asking to check the mail, and when it throws, the
  current handler answers 500 with the message of a failed confirmation mail.
\<close>

theorem subscribe_status_branch:
  assumes "addr \<noteq> []" "emailRegex_test addr" "\<not> select1_throws io" "\<not> upsert_throws io"
  shows "\<exists>r. find (\<lambda>x. email x = toWellFormed addr)
               (subscribers (snd (POST w io (Parsed (Some addr))))) = Some r
     \<and> (status r = confirmed \<or> status r = pending)
     \<and> (status r = confirmed \<longrightarrow>
          fst (POST w io (Parsed (Some addr))) =
            \<lparr>http_status = 200, message = ''You are already subscribed and confirmed!''\<rparr>
        \<and> notifier_calls (snd (POST w io (Parsed (Some addr)))) = notifier_calls w
        \<and> outbox (snd (POST w io (Parsed (Some addr)))) = outbox w)
     \<and> (status r = pending \<longrightarrow>
          confirmation_token r = Some (uuid io)
        \<and> notifier_calls (snd (POST w io (Parsed (Some addr)))) =
            notifier_calls w @ [(toWellFormed addr, uuid io)]
        \<and> (\<not> falsy (smtp_username w) \<and> \<not> falsy (smtp_password w) \<and> \<not> falsy (base_url w)
             \<and> sendMail_throws io = None \<longrightarrow>
            fst (POST w io (Parsed (Some addr))) =
              \<lparr>http_status = 200, message = ''Please check your email to confirm your subscription!''\<rparr>)
        \<and> (falsy (smtp_username w) \<or> falsy (smtp_password w) \<or> falsy (base_url w)
             \<or> sendMail_throws io \<noteq> None \<longrightarrow>
            fst (POST w io (Parsed (Some addr))) =
              \<lparr>http_status = 500,
                message = ''Failed to send confirmation email. Please try again or contact support.''\<rparr>))"
proof -
  let ?P = "POST w io (Parsed (Some addr))"
  let ?to = "toWellFormed addr"
  obtain r where r: "find (\<lambda>x. email x = ?to) (subscribers (stored w io addr)) = Some r"
      and tok: "confirmation_token r = Some (uuid io)"
      and st: "status r = confirmed \<or> status r = pending"
    using stored_row [of addr w io] by blast
  note P = POST_stored [OF assms r]
  have rows: "subscribers (snd ?P) = subscribers (stored w io addr)"
    using assms by (rule POST_subscribers)
  have c: "fst ?P = \<lparr>http_status = 200, message = ''You are already subscribed and confirmed!''\<rparr>
      \<and> notifier_calls (snd ?P) = notifier_calls w \<and> outbox (snd ?P) = outbox w"
    if "status r = confirmed"
    using that P by (simp add: json_def)
  have w': "snd ?P = snd (sendConfirmationEmail (sendMail_throws io) ?to (uuid io) (stored w io addr))"
    if "status r = pending"
    using that POST_world [OF assms r] by simp
  have calls: "notifier_calls (snd ?P) = notifier_calls w @ [(?to, uuid io)]" if "status r = pending"
    using w' [OF that] by (simp add: notifier_calls_send)
  have ok: "fst ?P = \<lparr>http_status = 200, message = ''Please check your email to confirm your subscription!''\<rparr>"
    if "status r = pending" and cfg: "\<not> falsy (smtp_username w)" "\<not> falsy (smtp_password w)" "\<not> falsy (base_url w)"
      and smtp: "sendMail_throws io = None"
  proof -
    obtain base where base: "base_url w = Some base" "base \<noteq> []"
      using cfg(3) by (cases "base_url w") auto
    have "sendConfirmationEmail None ?to (uuid io) (stored w io addr) =
           (Inr (),
            (stored w io addr)\<lparr>notifier_calls := notifier_calls (stored w io addr) @ [(?to, uuid io)],
              outbox := outbox (stored w io addr) @
                [\<lparr>mail_to = ?to, mail_subject = ''Confirm Your Subscription to Our Mailing List'',
                  mail_link = confirmationLink base (uuid io)\<rparr>]\<rparr>)"
      by (rule send_returns) (use cfg base in simp_all)
    then show ?thesis using P that(1) smtp by (simp add: json_def)
  qed
  have bad: "fst ?P = \<lparr>http_status = 500,
                message = ''Failed to send confirmation email. Please try again or contact support.''\<rparr>"
    if "status r = pending"
      and thr: "falsy (smtp_username w) \<or> falsy (smtp_password w) \<or> falsy (base_url w)
             \<or> sendMail_throws io \<noteq> None"
  proof -
    obtain e where "sendConfirmationEmail (sendMail_throws io) ?to (uuid io) (stored w io addr) =
        (Inl e, (stored w io addr)\<lparr>notifier_calls := notifier_calls (stored w io addr) @ [(?to, uuid io)]\<rparr>)"
      using send_throws [of "stored w io addr" "sendMail_throws io" ?to "uuid io"] thr by auto
    then show ?thesis using P that(1) by (simp add: json_def)
  qed
  have 1: "find (\<lambda>x. email x = ?to) (subscribers (snd ?P)) = Some r"
    using r rows by simp
  have 2: "status r = confirmed \<longrightarrow>
          fst ?P = \<lparr>http_status = 200, message = ''You are already subscribed and confirmed!''\<rparr>
        \<and> notifier_calls (snd ?P) = notifier_calls w
        \<and> outbox (snd ?P) = outbox w"
    using c by (rule impI)
  have 3: "status r = pending \<longrightarrow>
          confirmation_token r = Some (uuid io)
        \<and> notifier_calls (snd ?P) = notifier_calls w @ [(?to, uuid io)]
        \<and> (\<not> falsy (smtp_username w) \<and> \<not> falsy (smtp_password w) \<and> \<not> falsy (base_url w)
             \<and> sendMail_throws io = None \<longrightarrow>
            fst ?P = \<lparr>http_status = 200, message = ''Please check your email to confirm your subscription!''\<rparr>)
        \<and> (falsy (smtp_username w) \<or> falsy (smtp_password w) \<or> falsy (base_url w)
             \<or> sendMail_throws io \<noteq> None \<longrightarrow>
            fst ?P = \<lparr>http_status = 500,
                message = ''Failed to send confirmation email. Please try again or contact support.''\<rparr>)"
  proof (intro impI conjI)
    assume p: "status r = pending"
    show "confirmation_token r = Some (uuid io)" by (rule tok)
    show "notifier_calls (snd ?P) = notifier_calls w @ [(?to, uuid io)]" using p by (rule calls)
    {
      assume "\<not> falsy (smtp_username w) \<and> \<not> falsy (smtp_password w) \<and> \<not> falsy (base_url w)
             \<and> sendMail_throws io = None"
      then show "fst ?P = \<lparr>http_status = 200, message = ''Please check your email to confirm your subscription!''\<rparr>"
        using ok [OF p] by (elim conjE)
    }
    {
      assume "falsy (smtp_username w) \<or> falsy (smtp_password w) \<or> falsy (base_url w)
             \<or> sendMail_throws io \<noteq> None"
      then show "fst ?P = \<lparr>http_status = 500,
                message = ''Failed to send confirmation email. Please try again or contact support.''\<rparr>"
        using p by (intro bad)
    }
  qed
  from 1 st 2 3 show ?thesis
    by (intro exI [of _ r] conjI) assumption+
qed

theorem subscribe_status_branch_witness:
  "fst (POST sample_world sample_io (Parsed (Some sample_address))) =
     \<lparr>http_status = 200, message = ''Please check your email to confirm your subscription!''\<rparr>
   \<and> notifier_calls (snd (POST sample_world sample_io (Parsed (Some sample_address)))) =
       [(sample_address, sample_token)]
   \<and> fst (POST confirmed_world later_io (Parsed (Some sample_address))) =
       \<lparr>http_status = 200, message = ''You are already subscribed and confirmed!''\<rparr>
   \<and> notifier_calls (snd (POST confirmed_world later_io (Parsed (Some sample_address)))) = []
   \<and> http_status (fst (POST sample_world mail_down_io (Parsed (Some sample_address)))) = 500
   \<and> notifier_calls (snd (POST replaced_world later_io (Parsed (Some lone_surrogate_address)))) =
       [(replaced_address, other_token)]"
proof -
  let ?P = "POST sample_world sample_io (Parsed (Some sample_address))"
  let ?Q = "POST confirmed_world later_io (Parsed (Some sample_address))"
  let ?M = "POST sample_world mail_down_io (Parsed (Some sample_address))"
  let ?L = "POST replaced_world later_io (Parsed (Some lone_surrogate_address))"
  obtain r where r: "find (\<lambda>x. email x = toWellFormed sample_address) (subscribers (snd ?P)) = Some r"
    and p: "status r = pending \<longrightarrow>
          confirmation_token r = Some (uuid sample_io)
        \<and> notifier_calls (snd ?P) = notifier_calls sample_world @ [(toWellFormed sample_address, uuid sample_io)]
        \<and> (\<not> falsy (smtp_username sample_world) \<and> \<not> falsy (smtp_password sample_world)
             \<and> \<not> falsy (base_url sample_world) \<and> sendMail_throws sample_io = None \<longrightarrow>
            fst ?P = \<lparr>http_status = 200, message = ''Please check your email to confirm your subscription!''\<rparr>)
        \<and> (falsy (smtp_username sample_world) \<or> falsy (smtp_password sample_world)
             \<or> falsy (base_url sample_world) \<or> sendMail_throws sample_io \<noteq> None \<longrightarrow>
            fst ?P = \<lparr>http_status = 500,
                message = ''Failed to send confirmation email. Please try again or contact support.''\<rparr>)"
    using subscribe_status_branch [OF sample_address_valid(2,1) sample_io_ok(1,2), of sample_world]
    by (elim exE conjE)
  have "r = sample_row"
    using r unfolding sample_subscribe_rows sample_address_stored
    by (simp add: sample_row_def split: if_splits)
  then have "status r = pending" by (simp add: sample_row_def)
  with p have a: "fst ?P = \<lparr>http_status = 200, message = ''Please check your email to confirm your subscription!''\<rparr>"
    and b: "notifier_calls (snd ?P) = [(sample_address, sample_token)]"
    by (simp_all add: sample_world_def sample_io_def sample_address_stored)
  obtain q where q: "find (\<lambda>x. email x = toWellFormed sample_address) (subscribers (snd ?Q)) = Some q"
    and c: "status q = confirmed \<longrightarrow>
          fst ?Q = \<lparr>http_status = 200, message = ''You are already subscribed and confirmed!''\<rparr>
        \<and> notifier_calls (snd ?Q) = notifier_calls confirmed_world
        \<and> outbox (snd ?Q) = outbox confirmed_world"
    using subscribe_status_branch [OF sample_address_valid(2,1) sample_io_ok(3,4), of confirmed_world]
    by (elim exE conjE)
  have "status q = confirmed"
    using q unfolding confirmed_resubscribe_rows sample_address_stored
    by (auto simp: sample_row_def split: if_splits)
  with c have d: "fst ?Q = \<lparr>http_status = 200, message = ''You are already subscribed and confirmed!''\<rparr>"
    and e: "notifier_calls (snd ?Q) = []"
    by (simp_all add: confirmed_world_def sample_world_def)
  obtain m where m: "find (\<lambda>x. email x = toWellFormed sample_address) (subscribers (snd ?M)) = Some m"
    and mp: "status m = pending \<longrightarrow>
          confirmation_token m = Some (uuid mail_down_io)
        \<and> notifier_calls (snd ?M) = notifier_calls sample_world @ [(toWellFormed sample_address, uuid mail_down_io)]
        \<and> (\<not> falsy (smtp_username sample_world) \<and> \<not> falsy (smtp_password sample_world)
             \<and> \<not> falsy (base_url sample_world) \<and> sendMail_throws mail_down_io = None \<longrightarrow>
            fst ?M = \<lparr>http_status = 200, message = ''Please check your email to confirm your subscription!''\<rparr>)
        \<and> (falsy (smtp_username sample_world) \<or> falsy (smtp_password sample_world)
             \<or> falsy (base_url sample_world) \<or> sendMail_throws mail_down_io \<noteq> None \<longrightarrow>
            fst ?M = \<lparr>http_status = 500,
                message = ''Failed to send confirmation email. Please try again or contact support.''\<rparr>)"
    using subscribe_status_branch [OF sample_address_valid(2,1) mail_down_io_fields(1,2), of sample_world]
    by (elim exE conjE)
  have "m = sample_row"
    using m unfolding mail_down_subscribe_rows sample_address_stored
    by (simp add: sample_row_def split: if_splits)
  then have "status m = pending" by (simp add: sample_row_def)
  with mp mail_down_io_fields(3) have f: "http_status (fst ?M) = 500" by simp
  obtain l where l: "find (\<lambda>x. email x = toWellFormed lone_surrogate_address) (subscribers (snd ?L)) = Some l"
    and lp: "status l = pending \<longrightarrow>
          confirmation_token l = Some (uuid later_io)
        \<and> notifier_calls (snd ?L) = notifier_calls replaced_world
             @ [(toWellFormed lone_surrogate_address, uuid later_io)]
        \<and> (\<not> falsy (smtp_username replaced_world) \<and> \<not> falsy (smtp_password replaced_world)
             \<and> \<not> falsy (base_url replaced_world) \<and> sendMail_throws later_io = None \<longrightarrow>
            fst ?L = \<lparr>http_status = 200, message = ''Please check your email to confirm your subscription!''\<rparr>)
        \<and> (falsy (smtp_username replaced_world) \<or> falsy (smtp_password replaced_world)
             \<or> falsy (base_url replaced_world) \<or> sendMail_throws later_io \<noteq> None \<longrightarrow>
            fst ?L = \<lparr>http_status = 500,
                message = ''Failed to send confirmation email. Please try again or contact support.''\<rparr>)"
    using subscribe_status_branch [OF lone_surrogate_address_valid(2,1) sample_io_ok(3,4), of replaced_world]
    by (elim exE conjE)
  have "subscribers (snd ?L) =
      [sample_row\<lparr>email := replaced_address, confirmation_token := Some other_token, updated_at := 2000\<rparr>]"
    unfolding POST_subscribers [OF lone_surrogate_address_valid(2,1) sample_io_ok(3,4)] stored_def
      upsertPendingSubscriber_def lone_surrogate_address_valid(3)
    by (simp add: insert_statement_def on_conflict_def replaced_world_def sample_row_def later_io_def)
  then have "status l = pending"
    using l unfolding lone_surrogate_address_valid(3) by (auto simp: sample_row_def split: if_splits)
  with lp have g: "notifier_calls (snd ?L) = [(replaced_address, other_token)]"
    by (simp add: lone_surrogate_address_valid(3) replaced_world_def sample_world_def later_io_def)
  from a b d e f g show ?thesis by (intro conjI) assumption+
qed

section \<open>Subscribing and then confirming\<close>




section \<open>Tokens and statuses in the reachable states\<close>

text \<open>
  Claim C5 says that in every reachable state a token is non-null only on a pending row.
  The state reached by subscribing an address, confirming it, and subscribing it again
  has a confirmed row with a non-null token: the insert statement overwrites the token
  of an existing row whatever its status.
\<close>

theorem resubscribed_confirmed_row_has_token:
  "reachable resubscribed_world
   \<and> subscribers resubscribed_world =
       [\<lparr>row_id = 1, email = sample_address, status = confirmed,
         confirmation_token = Some other_token, created_at = 1000, updated_at = 2000\<rparr>]"
  using reachable_samples(4) resubscribed_world_rows by (simp add: sample_row_def)

text \<open>
  Claim C5, amended. In every state reachable from an empty table by subscribe and
  confirm calls, a pending row has a non-null token and a row with a null token is
  confirmed. A subscribe call never clears a token: a row whose token is null after
  the call was there before the call, unchanged. A confirm call keeps the number of
  rows, and it changes a row's token from non-null to null exactly when the call's
  token is non-empty, the update statement does not fail, and the row is pending with
  that token; the call then answers 200 and the row is confirmed.
\<close>

theorem token_invariant:
  assumes "reachable w"
  shows "(\<forall>r \<in> set (subscribers w).
            (status r = pending \<longrightarrow> confirmation_token r \<noteq> None)
          \<and> (confirmation_token r = None \<longrightarrow> status r = confirmed))
       \<and> (\<forall>i < length (subscribers (snd (POST w io requestBody))).
            confirmation_token (subscribers (snd (POST w io requestBody)) ! i) = None \<longrightarrow>
              i < length (subscribers w)
            \<and> subscribers (snd (POST w io requestBody)) ! i = subscribers w ! i)
       \<and> length (subscribers (snd (GET w update_throws param))) = length (subscribers w)
       \<and> (\<forall>i < length (subscribers w).
            (confirmation_token (subscribers w ! i) \<noteq> None
             \<and> confirmation_token (subscribers (snd (GET w update_throws param)) ! i) = None)
            = (\<exists>token. param = Some token \<and> token \<noteq> [] \<and> \<not> update_throws
                 \<and> confirmation_token (subscribers w ! i) = Some token
                 \<and> status (subscribers w ! i) = pending))
       \<and> (\<forall>i < length (subscribers w).
            confirmation_token (subscribers w ! i) \<noteq> None
            \<and> confirmation_token (subscribers (snd (GET w update_throws param)) ! i) = None \<longrightarrow>
              http_status (fst (GET w update_throws param)) = 200
            \<and> status (subscribers (snd (GET w update_throws param)) ! i) = confirmed)"
proof -
  let ?rows = "subscribers w"
  let ?P = "subscribers (snd (POST w io requestBody))"
  let ?G = "subscribers (snd (GET w update_throws param))"
  note inv = reachable_inv [OF assms]
  have post: "\<forall>i < length ?P. confirmation_token (?P ! i) = None \<longrightarrow> i < length ?rows \<and> ?P ! i = ?rows ! i"
  proof (intro allI impI)
    fix i assume i: "i < length ?P" and n: "confirmation_token (?P ! i) = None"
    from POST_subscribers_cases [of w io requestBody]
    show "i < length ?rows \<and> ?P ! i = ?rows ! i"
    proof (elim disjE exE)
      assume "?P = ?rows"
      then show ?thesis using i by simp
    next
      fix key
      assume e: "?P = snd (insert_statement key (uuid io) (new_id io) (now io) ?rows)"
      show ?thesis using upsert_never_clears [of i key "uuid io" "new_id io" "now io" ?rows] i n
        unfolding e by simp
    qed
  qed
  have len: "length ?G = length ?rows"
    using GET_subscribers_cases [of param update_throws w] by (auto simp: confirmByToken_def)
  have clear: "(confirmation_token (?rows ! i) \<noteq> None \<and> confirmation_token (?G ! i) = None)
            = (\<exists>token. param = Some token \<and> token \<noteq> [] \<and> \<not> update_throws
                 \<and> confirmation_token (?rows ! i) = Some token \<and> status (?rows ! i) = pending)"
    and ok: "confirmation_token (?rows ! i) \<noteq> None \<and> confirmation_token (?G ! i) = None \<longrightarrow>
              http_status (fst (GET w update_throws param)) = 200 \<and> status (?G ! i) = confirmed"
    if i: "i < length ?rows" for i
  proof -
    from GET_subscribers_cases [of param update_throws w]
    consider token where "param = Some token" "token \<noteq> []" "\<not> update_throws"
        "?G = snd (confirmByToken token ?rows)"
        "http_status (fst (GET w update_throws param)) = 200 \<longleftrightarrow> (\<exists>x \<in> set ?rows. token_matches token x)"
      | "param = None \<or> param = Some [] \<or> update_throws" "snd (GET w update_throws param) = w"
      by blast
    then have "((confirmation_token (?rows ! i) \<noteq> None \<and> confirmation_token (?G ! i) = None)
            = (\<exists>token. param = Some token \<and> token \<noteq> [] \<and> \<not> update_throws
                 \<and> confirmation_token (?rows ! i) = Some token \<and> status (?rows ! i) = pending))
        \<and> (confirmation_token (?rows ! i) \<noteq> None \<and> confirmation_token (?G ! i) = None \<longrightarrow>
              http_status (fst (GET w update_throws param)) = 200 \<and> status (?G ! i) = confirmed)"
    proof cases
      case 1
      have m: "token_matches token (?rows ! i) \<Longrightarrow> \<exists>x \<in> set ?rows. token_matches token x"
        using i nth_mem by blast
      show ?thesis
        using confirm_clears [OF i, of token] 1 m by (auto simp: token_matches_def)
    next
      case 2
      then show ?thesis by auto
    qed
    then show "(confirmation_token (?rows ! i) \<noteq> None \<and> confirmation_token (?G ! i) = None)
            = (\<exists>token. param = Some token \<and> token \<noteq> [] \<and> \<not> update_throws
                 \<and> confirmation_token (?rows ! i) = Some token \<and> status (?rows ! i) = pending)"
      and "confirmation_token (?rows ! i) \<noteq> None \<and> confirmation_token (?G ! i) = None \<longrightarrow>
              http_status (fst (GET w update_throws param)) = 200 \<and> status (?G ! i) = confirmed"
      by (rule conjunct1, rule conjunct2)
  qed
  from clear have clear': "\<forall>i < length ?rows.
      (confirmation_token (?rows ! i) \<noteq> None \<and> confirmation_token (?G ! i) = None)
            = (\<exists>token. param = Some token \<and> token \<noteq> [] \<and> \<not> update_throws
                 \<and> confirmation_token (?rows ! i) = Some token \<and> status (?rows ! i) = pending)"
    by (intro allI impI)
  from ok have ok': "\<forall>i < length ?rows.
      confirmation_token (?rows ! i) \<noteq> None \<and> confirmation_token (?G ! i) = None \<longrightarrow>
              http_status (fst (GET w update_throws param)) = 200 \<and> status (?G ! i) = confirmed"
    by (intro allI impI) blast
  from inv post len clear' ok' show ?thesis
    by (intro conjI) assumption+
qed

theorem token_invariant_witness:
  "status (subscribers subscribed_world ! 0) = pending
   \<and> confirmation_token (subscribers subscribed_world ! 0) = Some sample_token
   \<and> confirmation_token (subscribers (snd (GET subscribed_world False (Some sample_token))) ! 0) = None
   \<and> status (subscribers (snd (GET subscribed_world False (Some sample_token))) ! 0) = confirmed
   \<and> http_status (fst (GET subscribed_world False (Some sample_token))) = 200
   \<and> confirmation_token (subscribers (snd (POST subscribed_world later_io (Parsed (Some sample_address)))) ! 0) \<noteq> None"
proof -
  note t = token_invariant [OF reachable_samples(2), of later_io "Parsed (Some sample_address)" False "Some sample_token"]
  have a: "status (subscribers subscribed_world ! 0) = pending"
    and b: "confirmation_token (subscribers subscribed_world ! 0) = Some sample_token"
    by (simp_all add: subscribed_world_rows sample_row_def)
  have l: "0 < length (subscribers subscribed_world)" by (simp add: subscribed_world_rows)
  have "\<exists>token. Some sample_token = Some token \<and> token \<noteq> [] \<and> \<not> False
          \<and> confirmation_token (subscribers subscribed_world ! 0) = Some token
          \<and> status (subscribers subscribed_world ! 0) = pending"
    using a b sample_token_nonempty by simp
  with t l have c: "confirmation_token (subscribers subscribed_world ! 0) \<noteq> None
      \<and> confirmation_token (subscribers (snd (GET subscribed_world False (Some sample_token))) ! 0) = None"
    by blast
  with t l have d: "http_status (fst (GET subscribed_world False (Some sample_token))) = 200
      \<and> status (subscribers (snd (GET subscribed_world False (Some sample_token))) ! 0) = confirmed"
    by blast
  have "0 < length (subscribers (snd (POST subscribed_world later_io (Parsed (Some sample_address)))))"
    unfolding POST_subscribers [OF sample_address_valid(2,1) sample_io_ok(3,4)] stored_def
      upsertPendingSubscriber_def sample_address_stored subscribed_world_rows
    by (simp add: insert_statement_def sample_row_def)
  moreover have "subscribers (snd (POST subscribed_world later_io (Parsed (Some sample_address)))) ! 0
       \<noteq> subscribers subscribed_world ! 0"
    unfolding POST_subscribers [OF sample_address_valid(2,1) sample_io_ok(3,4)] stored_def
      upsertPendingSubscriber_def sample_address_stored subscribed_world_rows
    by (simp add: insert_statement_def on_conflict_def sample_row_def later_io_def)
  ultimately have e: "confirmation_token (subscribers (snd (POST subscribed_world later_io (Parsed (Some sample_address)))) ! 0) \<noteq> None"
    using t by blast
  from a b c d e show ?thesis by simp
qed

section \<open>Failures of the store and of the notifier\<close>

text \<open>
  Claim C8 says that a notifier failure is never reported as a store error and that one
  policy for it holds throughout the program. On the same request and the same failure
  of the transport, the current handler answers 500 and the revision part_001 answers
  200; the revision part_000 gives one and the same answer to a failure of the
  transport and to a failure of the insert statement.
\<close>

theorem notifier_failure_not_uniform:
  "fst (POST sample_world mail_down_io (Parsed (Some sample_address))) =
     \<lparr>http_status = 500,
       message = ''Failed to send confirmation email. Please try again or contact support.''\<rparr>
   \<and> http_status (fst (POST_part_001 sample_world mail_down_io (Parsed (Some sample_address)))) = 200
   \<and> fst (POST_part_000 sample_world mail_down_io (Parsed (Some sample_address))) =
       \<lparr>http_status = 500, message = ''Failed to subscribe. Please try again later.''\<rparr>
   \<and> fst (POST_part_000 sample_world store_down_io (Parsed (Some sample_address))) =
       \<lparr>http_status = 500, message = ''Failed to subscribe. Please try again later.''\<rparr>"
proof -
  have h: "\<forall>r \<in> set (subscribers sample_world).
      email r = toWellFormed sample_address \<longrightarrow> status r \<noteq> confirmed"
    by (simp add: sample_world_def)
  note n = notifier_throws_responses [OF sample_address_valid(2,1) mail_down_io_fields(2) h, of]
  have t: "falsy (smtp_username sample_world) \<or> falsy (smtp_password sample_world)
      \<or> falsy (base_url sample_world) \<or> sendMail_throws mail_down_io \<noteq> None"
    using mail_down_io_fields(3) by simp
  have "fst (POST_part_000 sample_world store_down_io (Parsed (Some sample_address))) =
       \<lparr>http_status = 500, message = ''Failed to subscribe. Please try again later.''\<rparr>"
    using sample_address_valid mail_down_io_fields(4) by (simp add: POST_part_000_def json_def)
  then show ?thesis
    using n(1) [OF t mail_down_io_fields(1)] n(2) [OF t] n(3) [OF t] by (simp add: json_def)
qed

text \<open>
  Claim C8, amended. In the current subscribe handler a failure of the store ends the
  call with the state unchanged and a generic message: 503 when the connection test
  fails, 500 when the insert statement fails. When the store has answered, the address
  as the store holds it is not already confirmed and the notifier throws, the handler
  of the notifier call answers 500 with the message of a failed confirmation mail,
  which is neither of the two store messages, and the written row stays. The revisions differ on the same
  failure: part_001 answers 200, and part_000 answers 500 with the message it also gives
  when the insert statement fails.
\<close>

theorem failure_handling:
  assumes "addr \<noteq> []" "emailRegex_test addr"
  shows "(select1_throws io \<longrightarrow>
            POST w io (Parsed (Some addr)) =
              (\<lparr>http_status = 503, message = ''Database service unavailable. Please try again later.''\<rparr>, w))
       \<and> (\<not> select1_throws io \<and> upsert_throws io \<longrightarrow>
            POST w io (Parsed (Some addr)) =
              (\<lparr>http_status = 500, message = ''Database error occurred. Please try again later.''\<rparr>, w))
       \<and> (\<not> select1_throws io \<and> \<not> upsert_throws io
           \<and> (\<forall>r \<in> set (subscribers w). email r = toWellFormed addr \<longrightarrow> status r \<noteq> confirmed)
           \<and> (falsy (smtp_username w) \<or> falsy (smtp_password w) \<or> falsy (base_url w)
                \<or> sendMail_throws io \<noteq> None) \<longrightarrow>
            fst (POST w io (Parsed (Some addr))) =
              \<lparr>http_status = 500,
                message = ''Failed to send confirmation email. Please try again or contact support.''\<rparr>
          \<and> message (fst (POST w io (Parsed (Some addr)))) \<noteq>
              ''Database service unavailable. Please try again later.''
          \<and> message (fst (POST w io (Parsed (Some addr)))) \<noteq>
              ''Database error occurred. Please try again later.''
          \<and> subscribers (snd (POST w io (Parsed (Some addr)))) =
              snd (upsertPendingSubscriber addr (uuid io) (new_id io) (now io) (subscribers w))
          \<and> fst (POST_part_001 w io (Parsed (Some addr))) =
              \<lparr>http_status = 200,
                message = ''Subscription saved! Please check your email or contact support if you don''
                          @ [CHR 0x27] @ ''t receive confirmation.''\<rparr>
          \<and> fst (POST_part_000 w io (Parsed (Some addr))) =
              \<lparr>http_status = 500, message = ''Failed to subscribe. Please try again later.''\<rparr>)
       \<and> (upsert_throws io \<longrightarrow>
            POST_part_000 w io (Parsed (Some addr)) =
              (\<lparr>http_status = 500, message = ''Failed to subscribe. Please try again later.''\<rparr>, w)
          \<and> POST_part_001 w io (Parsed (Some addr)) =
              (\<lparr>http_status = 500, message = ''Database error occurred. Please try again later.''\<rparr>, w))"
proof (intro conjI impI)
  assume "select1_throws io"
  then show "POST w io (Parsed (Some addr)) =
      (\<lparr>http_status = 503, message = ''Database service unavailable. Please try again later.''\<rparr>, w)"
    using assms by (simp add: POST_def json_def)
next
  assume "\<not> select1_throws io \<and> upsert_throws io"
  then show "POST w io (Parsed (Some addr)) =
      (\<lparr>http_status = 500, message = ''Database error occurred. Please try again later.''\<rparr>, w)"
    using assms by (simp add: POST_def json_def)
next
  assume a: "\<not> select1_throws io \<and> \<not> upsert_throws io
           \<and> (\<forall>r \<in> set (subscribers w). email r = toWellFormed addr \<longrightarrow> status r \<noteq> confirmed)
           \<and> (falsy (smtp_username w) \<or> falsy (smtp_password w) \<or> falsy (base_url w)
                \<or> sendMail_throws io \<noteq> None)"
  then have b: "\<not> select1_throws io" "\<not> upsert_throws io"
    "\<forall>r \<in> set (subscribers w). email r = toWellFormed addr \<longrightarrow> status r \<noteq> confirmed"
    "falsy (smtp_username w) \<or> falsy (smtp_password w) \<or> falsy (base_url w) \<or> sendMail_throws io \<noteq> None"
    by simp_all
  note n = notifier_throws_responses [OF assms b(2,3,4)]
  show r: "fst (POST w io (Parsed (Some addr))) =
      \<lparr>http_status = 500,
        message = ''Failed to send confirmation email. Please try again or contact support.''\<rparr>"
    using n(1) [OF b(1)] by (simp add: json_def)
  show "message (fst (POST w io (Parsed (Some addr)))) \<noteq>
      ''Database service unavailable. Please try again later.''"
    unfolding r by simp
  show "message (fst (POST w io (Parsed (Some addr)))) \<noteq>
      ''Database error occurred. Please try again later.''"
    unfolding r by simp
  show "subscribers (snd (POST w io (Parsed (Some addr)))) =
      snd (upsertPendingSubscriber addr (uuid io) (new_id io) (now io) (subscribers w))"
    using POST_subscribers [OF assms b(1,2)] by (simp add: stored_def)
  show "fst (POST_part_001 w io (Parsed (Some addr))) =
      \<lparr>http_status = 200,
        message = ''Subscription saved! Please check your email or contact support if you don''
                  @ [CHR 0x27] @ ''t receive confirmation.''\<rparr>"
    using n(3) by (simp add: json_def)
  show "fst (POST_part_000 w io (Parsed (Some addr))) =
      \<lparr>http_status = 500, message = ''Failed to subscribe. Please try again later.''\<rparr>"
    using n(2) by (simp add: json_def)
next
  assume "upsert_throws io"
  then show "POST_part_000 w io (Parsed (Some addr)) =
      (\<lparr>http_status = 500, message = ''Failed to subscribe. Please try again later.''\<rparr>, w)"
    using assms by (simp add: POST_part_000_def json_def)
next
  assume "upsert_throws io"
  then show "POST_part_001 w io (Parsed (Some addr)) =
      (\<lparr>http_status = 500, message = ''Database error occurred. Please try again later.''\<rparr>, w)"
    using assms by (simp add: POST_part_001_def json_def)
qed

theorem failure_handling_witness:
  "POST sample_world (sample_io\<lparr>select1_throws := True\<rparr>) (Parsed (Some sample_address)) =
     (\<lparr>http_status = 503, message = ''Database service unavailable. Please try again later.''\<rparr>, sample_world)
   \<and> POST sample_world store_down_io (Parsed (Some sample_address)) =
       (\<lparr>http_status = 500, message = ''Database error occurred. Please try again later.''\<rparr>, sample_world)
   \<and> fst (POST sample_world mail_down_io (Parsed (Some sample_address))) =
       \<lparr>http_status = 500,
         message = ''Failed to send confirmation email. Please try again or contact support.''\<rparr>
   \<and> subscribers (snd (POST sample_world mail_down_io (Parsed (Some sample_address)))) = [sample_row]
   \<and> http_status (fst (POST_part_001 sample_world mail_down_io (Parsed (Some sample_address)))) = 200
   \<and> POST_part_000 sample_world store_down_io (Parsed (Some sample_address)) =
       (\<lparr>http_status = 500, message = ''Failed to subscribe. Please try again later.''\<rparr>, sample_world)"
proof -
  note t = failure_handling [OF sample_address_valid(2,1), of _ sample_world]
  have a: "POST sample_world (sample_io\<lparr>select1_throws := True\<rparr>) (Parsed (Some sample_address)) =
     (\<lparr>http_status = 503, message = ''Database service unavailable. Please try again later.''\<rparr>, sample_world)"
    using t [of "sample_io\<lparr>select1_throws := True\<rparr>"] by simp
  have b: "POST sample_world store_down_io (Parsed (Some sample_address)) =
       (\<lparr>http_status = 500, message = ''Database error occurred. Please try again later.''\<rparr>, sample_world)"
    and f: "POST_part_000 sample_world store_down_io (Parsed (Some sample_address)) =
       (\<lparr>http_status = 500, message = ''Failed to subscribe. Please try again later.''\<rparr>, sample_world)"
    using t [of store_down_io] mail_down_io_fields(4,5) by blast+
  have h: "\<not> select1_throws mail_down_io \<and> \<not> upsert_throws mail_down_io
           \<and> (\<forall>r \<in> set (subscribers sample_world).
                 email r = toWellFormed sample_address \<longrightarrow> status r \<noteq> confirmed)
           \<and> (falsy (smtp_username sample_world) \<or> falsy (smtp_password sample_world)
                \<or> falsy (base_url sample_world) \<or> sendMail_throws mail_down_io \<noteq> None)"
    using mail_down_io_fields(1-3) by (simp add: sample_world_def)
  with t [of mail_down_io]
  have c: "fst (POST sample_world mail_down_io (Parsed (Some sample_address))) =
       \<lparr>http_status = 500,
         message = ''Failed to send confirmation email. Please try again or contact support.''\<rparr>"
    and d: "subscribers (snd (POST sample_world mail_down_io (Parsed (Some sample_address)))) =
              snd (upsertPendingSubscriber sample_address (uuid mail_down_io) (new_id mail_down_io)
                     (now mail_down_io) (subscribers sample_world))"
    and e: "fst (POST_part_001 sample_world mail_down_io (Parsed (Some sample_address))) =
              \<lparr>http_status = 200,
                message = ''Subscription saved! Please check your email or contact support if you don''
                          @ [CHR 0x27] @ ''t receive confirmation.''\<rparr>"
    by blast+
  have d': "subscribers (snd (POST sample_world mail_down_io (Parsed (Some sample_address)))) = [sample_row]"
    unfolding d
    by (simp add: upsertPendingSubscriber_def insert_statement_def sample_address_stored
        mail_down_io_def sample_io_def sample_world_def sample_row_def)
  from a b c d' e f show ?thesis by simp
qed


end
